theory Spec2Isabelle
  imports Complex_Main
begin

section \<open>Calendar dates\<close>

text \<open>
  The program works on values of Python's \<^verbatim>\<open>datetime.date\<close>: a year, a month and a
  day, ordered as the triple (year, month, day). The constructor accepts a triple only when
  it is a day of the proleptic Gregorian calendar with a year from 1 to 9999.
\<close>

record date =
  year :: int
  month :: int
  day :: int

definition is_leap :: "int \<Rightarrow> bool" where
  "is_leap y \<longleftrightarrow> y mod 4 = 0 \<and> (y mod 100 \<noteq> 0 \<or> y mod 400 = 0)"

definition days_in_month :: "int \<Rightarrow> int \<Rightarrow> int" where
  "days_in_month y m =
     (if m = 2 then (if is_leap y then 29 else 28)
      else if m = 4 \<or> m = 6 \<or> m = 9 \<or> m = 11 then 30
      else 31)"

definition valid_date :: "date \<Rightarrow> bool" where
  "valid_date d \<longleftrightarrow>
     1 \<le> year d \<and> year d \<le> 9999 \<and> 1 \<le> month d \<and> month d \<le> 12 \<and>
     1 \<le> day d \<and> day d \<le> days_in_month (year d) (month d)"

definition date_lt :: "date \<Rightarrow> date \<Rightarrow> bool" where
  "date_lt a b \<longleftrightarrow>
     year a < year b \<or>
     (year a = year b \<and> (month a < month b \<or> (month a = month b \<and> day a < day b)))"

definition date_le :: "date \<Rightarrow> date \<Rightarrow> bool" where
  "date_le a b \<longleftrightarrow>
     year a < year b \<or>
     (year a = year b \<and> (month a < month b \<or> (month a = month b \<and> day a \<le> day b)))"

definition date_gt :: "date \<Rightarrow> date \<Rightarrow> bool" where
  "date_gt a b \<longleftrightarrow> date_lt b a"

definition date_ge :: "date \<Rightarrow> date \<Rightarrow> bool" where
  "date_ge a b \<longleftrightarrow> date_le b a"

section \<open>Decimal rendering of integers\<close>

text \<open>
  The fiscal labels are built with f-strings, \<^verbatim>\<open>f"{a}-{b}"\<close>, which render a Python
  integer in decimal, with a leading minus sign when it is negative.
\<close>

definition digit_char :: "nat \<Rightarrow> char" where
  "digit_char d = ''0123456789'' ! d"

fun str_nat :: "nat \<Rightarrow> string" where
  "str_nat n = (if n < 10 then [digit_char n] else str_nat (n div 10) @ [digit_char (n mod 10)])"

declare str_nat.simps [simp del]

definition str_int :: "int \<Rightarrow> string" where
  "str_int k = (if k < 0 then CHR ''-'' # str_nat (nat (- k)) else str_nat (nat k))"

section \<open>The fiscal year of a date\<close>

text \<open>
  \<^verbatim>\<open>get_fiscal_year_string(input_date)\<close>: a date before April 5 is given to the fiscal
  year that started the year before.
\<close>

definition get_fiscal_year_string :: "date \<Rightarrow> string" where
  "get_fiscal_year_string input_date =
     (let fiscal_year_start_candidate = year input_date;
          fiscal_year_start =
            (if month input_date < 4 \<or> (month input_date = 4 \<and> day input_date < 5)
             then fiscal_year_start_candidate - 1
             else fiscal_year_start_candidate);
          fiscal_year_end_period = fiscal_year_start + 1
      in str_int fiscal_year_start @ ''-'' @ str_int fiscal_year_end_period)"

section \<open>Payments and the customer registry\<close>

text \<open>
  A row of the payments frame after \<^verbatim>\<open>load_data\<close>: the customer's name, the parsed date
  column (\<^verbatim>\<open>pd.to_datetime(..., errors='coerce').dt.date\<close>, where a missing or
  unparseable cell becomes \<^verbatim>\<open>NaT\<close>, here \<open>None\<close>), the amount and the note. The frame is
  the list of its rows in index order. Amounts are Python floats; they are modelled as
  real numbers, so the rounding of sums and differences is not part of the model (the
  division of line 179 is modelled with its rounding in a section of its own). The registry
  \<^verbatim>\<open>customer_amounts\<close> is a dictionary from names to amounts due.
\<close>

record payment =
  customer :: string
  payment_date_dt :: "date option"
  amount :: real
  payment_note :: string

type_synonym payments_frame = "payment list"

type_synonym customer_registry = "string \<rightharpoonup> real"

section \<open>The yearly summary\<close>

text \<open>
  The penalty column of a summary row is a text: the Thai word for "none", the Thai
  sentence "penalty not yet due", or the penalty amount formatted with its currency. The
  three forms are kept apart as constructors, the last one carrying the amount that the
  text formats.
\<close>

datatype penalty_status = Penalty_None | Penalty_Pending | Penalty_Amount real

record summary_row =
  fiscal_label :: string
  required :: real
  paid :: real
  remaining :: real
  penalty_status_text :: penalty_status

text \<open>An entry of \<^verbatim>\<open>penalties_incurred_display\<close>: label, outstanding amount, penalty.\<close>

record penalty_row =
  penalty_fiscal_label :: string
  outstanding :: real
  penalty_15 :: real

record customer_summary =
  total_due :: real
  total_paid_all_time :: real
  total_remaining :: real
  summary_data :: "summary_row list"
  penalties_incurred_display :: "penalty_row list"

definition start_contract_fiscal_year :: int where
  "start_contract_fiscal_year = 2025"

text \<open>
  The row filter of the loop body: the customer's rows whose parsed date is present and
  lies between the two bounds, both included (the two lambdas test for \<^verbatim>\<open>NaT\<close> before
  they compare).
\<close>

definition in_df_year :: "string \<Rightarrow> date \<Rightarrow> date \<Rightarrow> payment \<Rightarrow> bool" where
  "in_df_year customer_name start_date_fiscal end_date_fiscal p \<longleftrightarrow>
     customer p = customer_name \<and>
     (case payment_date_dt p of None \<Rightarrow> False | Some x \<Rightarrow> date_ge x start_date_fiscal) \<and>
     (case payment_date_dt p of None \<Rightarrow> False | Some x \<Rightarrow> date_le x end_date_fiscal)"

text \<open>
  One pass of the loop \<^verbatim>\<open>for i in range(4)\<close>: the summary row of fiscal year
  \<open>start_contract_fiscal_year + i\<close> and, when a penalty is incurred, the entry added to the
  penalty list.
\<close>

definition fiscal_year_pass ::
  "real \<Rightarrow> string \<Rightarrow> payments_frame \<Rightarrow> date \<Rightarrow> nat \<Rightarrow> summary_row \<times> penalty_row option" where
  "fiscal_year_pass required_yearly customer_name payments_df today i =
     (let fiscal_start_year = start_contract_fiscal_year + int i;
          fiscal_end_year_for_period = fiscal_start_year + 1;
          start_date_fiscal = \<lparr>year = fiscal_start_year, month = 4, day = 5\<rparr>;
          end_date_fiscal = \<lparr>year = fiscal_end_year_for_period, month = 3, day = 5\<rparr>;
          penalty_check_date = \<lparr>year = fiscal_end_year_for_period, month = 3, day = 3\<rparr>;
          df_year = filter (in_df_year customer_name start_date_fiscal end_date_fiscal) payments_df;
          paid_this_fiscal_year = sum_list (map amount df_year);
          remaining_this_fiscal_year = max 0 (required_yearly - paid_this_fiscal_year);
          label = str_int fiscal_start_year @ ''-'' @ str_int fiscal_end_year_for_period;
          (penalty_status, penalty) =
            (if remaining_this_fiscal_year > 0 then
               (if date_gt today penalty_check_date then
                  (let penalty_amount = remaining_this_fiscal_year * 0.15
                   in (Penalty_Amount penalty_amount,
                       Some \<lparr>penalty_fiscal_label = label,
                             outstanding = remaining_this_fiscal_year,
                             penalty_15 = penalty_amount\<rparr>))
                else (Penalty_Pending, None))
             else (Penalty_None, None))
      in (\<lparr>fiscal_label = label,
           required = required_yearly,
           paid = paid_this_fiscal_year,
           remaining = remaining_this_fiscal_year,
           penalty_status_text = penalty_status\<rparr>,
          penalty))"

text \<open>The loop itself, appending to the two lists it builds.\<close>

fun summary_loop ::
  "real \<Rightarrow> string \<Rightarrow> payments_frame \<Rightarrow> date \<Rightarrow> nat list \<Rightarrow>
   summary_row list \<times> penalty_row list \<Rightarrow> summary_row list \<times> penalty_row list" where
  "summary_loop required_yearly customer_name payments_df today [] acc = acc"
| "summary_loop required_yearly customer_name payments_df today (i # rest) (rows, penalties) =
     (case fiscal_year_pass required_yearly customer_name payments_df today i of
        (row, penalty) \<Rightarrow>
          summary_loop required_yearly customer_name payments_df today rest
            (rows @ [row],
             (case penalty of None \<Rightarrow> penalties | Some e \<Rightarrow> penalties @ [e])))"

text \<open>
  What \<^verbatim>\<open>display_customer_summary\<close> computes, in exact arithmetic and for a given
  reading \<open>today\<close> of the clock (\<^verbatim>\<open>datetime.today().date()\<close>). The function returns
  \<^verbatim>\<open>summary_data\<close>; the record also keeps the three totals and the penalty list that
  it computes and shows. The division of line 179 in the arithmetic of Python's numbers,
  and the function with its reading of the clock and its output on the page, follow in
  sections of their own.
\<close>

definition display_customer_summary ::
  "string \<Rightarrow> customer_registry \<Rightarrow> payments_frame \<Rightarrow> date \<Rightarrow> customer_summary" where
  "display_customer_summary customer_name customer_amounts payments_df today =
     (let total_due_v = (case customer_amounts customer_name of None \<Rightarrow> 0 | Some a \<Rightarrow> a);
          required_yearly = (if total_due_v > 0 then total_due_v / 4 else 0);
          total_paid =
            sum_list (map amount (filter (\<lambda>p. customer p = customer_name) payments_df));
          total_rem = total_due_v - total_paid;
          (rows, penalties) =
            summary_loop required_yearly customer_name payments_df today [0 ..< 4] ([], [])
      in \<lparr>total_due = total_due_v,
          total_paid_all_time = total_paid,
          total_remaining = total_rem,
          summary_data = rows,
          penalties_incurred_display = penalties\<rparr>)"

section \<open>The receipt's fiscal-year section\<close>

text \<open>
  In \<^verbatim>\<open>generate_pdf_receipt\<close>, the loop that looks for the summary row of the payment's
  fiscal year stops at the first row whose label is the one computed from the payment date.
\<close>

fun find_year_data :: "string \<Rightarrow> summary_row list \<Rightarrow> summary_row option" where
  "find_year_data payment_fiscal_year_string [] = None"
| "find_year_data payment_fiscal_year_string (year_data # rest) =
     (if fiscal_label year_data = payment_fiscal_year_string then Some year_data
      else find_year_data payment_fiscal_year_string rest)"

text \<open>
  What the receipt prints in that section: the five fields of the row found, or the line
  saying that no fiscal year was found for the payment date.
\<close>

datatype receipt_section =
  Fiscal_Year_Info string real real real penalty_status
| Fiscal_Year_Not_Found

definition receipt_fiscal_year_section :: "date \<Rightarrow> summary_row list \<Rightarrow> receipt_section" where
  "receipt_fiscal_year_section payment_date yearly_summary_for_pdf =
     (let payment_fiscal_year_string = get_fiscal_year_string payment_date;
          payment_fiscal_year_info =
            find_year_data payment_fiscal_year_string yearly_summary_for_pdf
      in case payment_fiscal_year_info of
           Some info \<Rightarrow>
             Fiscal_Year_Info (fiscal_label info) (required info) (paid info) (remaining info)
               (penalty_status_text info)
         | None \<Rightarrow> Fiscal_Year_Not_Found)"

section \<open>The yearly obligation in Python's arithmetic\<close>

text \<open>
  The registry is read from a spreadsheet: an amount due is a Python int when the column
  holds whole numbers and a float otherwise. A finite float is \<open>m * 2 ^ e\<close> with
  \<open>\<bar>m\<bar> < 2 ^ 53\<close> and \<open>- 1074 \<le> e \<le> 971\<close>. (A cell holds no infinity, and an empty cell,
  read as not-a-number, is not greater than 0.)
\<close>

datatype py_number = Py_int int | Py_float int int

datatype py_error = OverflowError

definition pow2 :: "int \<Rightarrow> real" where
  "pow2 e = (if 0 \<le> e then 2 ^ nat e else 1 / 2 ^ nat (- e))"

fun py_value :: "py_number \<Rightarrow> real" where
  "py_value (Py_int n) = real_of_int n"
| "py_value (Py_float m e) = real_of_int m * pow2 e"

fun py_well_formed :: "py_number \<Rightarrow> bool" where
  "py_well_formed (Py_int n) = True"
| "py_well_formed (Py_float m e) = (\<bar>m\<bar> < 2 ^ 53 \<and> - 1074 \<le> e \<and> e \<le> 971)"

text \<open>The number of bits of a natural number (\<^verbatim>\<open>int.bit_length\<close>).\<close>

fun bit_length :: "nat \<Rightarrow> nat" where
  "bit_length n = (if n = 0 then 0 else Suc (bit_length (n div 2)))"

declare bit_length.simps [simp del]

text \<open>The integer nearest to \<open>n / d\<close> for \<open>d > 0\<close>, the even one of two that are equally near.\<close>

definition round_half_even :: "int \<Rightarrow> int \<Rightarrow> int" where
  "round_half_even n d =
     (let q = n div d; r = n mod d
      in if 2 * r < d then q
         else if d < 2 * r then q + 1
         else if even q then q else q + 1)"

text \<open>
  The integer nearest to \<open>n\<close> that has at most 53 significant bits: the value that \<open>n\<close>
  takes as a float.
\<close>

definition round_to_53_bits :: "int \<Rightarrow> int" where
  "round_to_53_bits n =
     (let k = bit_length (nat \<bar>n\<bar>)
      in if k \<le> 53 then n else round_half_even n (2 ^ (k - 53)) * 2 ^ (k - 53))"

text \<open>
  \<^verbatim>\<open>total_due / 4\<close> for an int: the float nearest to the quotient, and
  \<^verbatim>\<open>OverflowError\<close> when that is beyond the largest float. Dividing by 4 only lowers the
  exponent, so the mantissa is that of the dividend rounded to 53 bits.
\<close>

definition int_truediv_4 :: "int \<Rightarrow> py_error + py_number" where
  "int_truediv_4 n =
     (let k = bit_length (nat \<bar>n\<bar>)
      in if k \<le> 53 then Inr (Py_float n (- 2))
         else
           (let s = k - 53; m = round_half_even n (2 ^ s)
            in if 2 ^ 1026 \<le> \<bar>m\<bar> * 2 ^ s then Inl OverflowError
               else if \<bar>m\<bar> = 2 ^ 53 then Inr (Py_float (m div 2) (int s - 1))
               else Inr (Py_float m (int s - 2))))"

text \<open>
  \<^verbatim>\<open>total_due / 4\<close> for a float \<open>m * 2 ^ e\<close>: exact while the exponent stays in range,
  and rounded to a multiple of \<open>2 ^ - 1074\<close> below that.
\<close>

definition float_truediv_4 :: "int \<Rightarrow> int \<Rightarrow> py_number" where
  "float_truediv_4 m e =
     (if - 1074 \<le> e - 2 then Py_float m (e - 2)
      else Py_float (round_half_even m (2 ^ nat (- 1072 - e))) (- 1074))"

fun py_truediv_4 :: "py_number \<Rightarrow> py_error + py_number" where
  "py_truediv_4 (Py_int n) = int_truediv_4 n"
| "py_truediv_4 (Py_float m e) = Inr (float_truediv_4 m e)"

text \<open>Line 179: \<^verbatim>\<open>required_yearly = total_due / 4 if total_due > 0 else 0\<close>.\<close>

definition required_yearly :: "py_number \<Rightarrow> py_error + py_number" where
  "required_yearly total_due_v =
     (if py_value total_due_v > 0 then py_truediv_4 total_due_v else Inr (Py_int 0))"

text \<open>
  The four rows when lines 178 and 179 run on Python's numbers. Each row stores
  \<^verbatim>\<open>required_yearly\<close> as it is (line 239); the other columns are computed from it as in
  \<open>fiscal_year_pass\<close>.
\<close>

definition summary_data_py ::
  "string \<Rightarrow> (string \<rightharpoonup> py_number) \<Rightarrow> payments_frame \<Rightarrow> date \<Rightarrow> py_error + summary_row list" where
  "summary_data_py customer_name customer_amounts payments_df today =
     (let total_due_v = (case customer_amounts customer_name of None \<Rightarrow> Py_int 0 | Some a \<Rightarrow> a)
      in case required_yearly total_due_v of
           Inl err \<Rightarrow> Inl err
         | Inr r \<Rightarrow>
             Inr (fst (summary_loop (py_value r) customer_name payments_df today [0 ..< 4] ([], []))))"

section \<open>The payments file\<close>

text \<open>
  A row of the payments file as the program writes it: the customer's name, the date cell
  (a text), the amount and the note.
\<close>

record stored_payment =
  stored_customer :: string
  stored_date :: string
  stored_amount :: real
  stored_note :: string

text \<open>
  \<^verbatim>\<open>load_data\<close> derives the parsed date column from the whole date column with
  \<^verbatim>\<open>pd.to_datetime(..., errors='coerce').dt.date\<close>. That is library code: it is a parameter
  here, a function that gives, for a column and an index, the date parsed for that cell or
  \<open>None\<close> for \<^verbatim>\<open>NaT\<close>.
\<close>

type_synonym to_datetime = "string list \<Rightarrow> nat \<Rightarrow> date option"

definition load_data :: "to_datetime \<Rightarrow> stored_payment list \<Rightarrow> payments_frame" where
  "load_data to_datetime_coerce stored =
     (let column = map stored_date stored
      in map (\<lambda>i. \<lparr>customer = stored_customer (stored ! i),
                    payment_date_dt = to_datetime_coerce column i,
                    amount = stored_amount (stored ! i),
                    payment_note = stored_note (stored ! i)\<rparr>)
           [0 ..< length stored])"

text \<open>
  \<^verbatim>\<open>new_date.strftime("%Y-%m-%d")\<close>: year, month and day, padded with zeros. (Whether a
  year below 1000 is padded depends on the platform; the date input of the page offers no
  such year.)
\<close>

definition zero_pad :: "nat \<Rightarrow> string \<Rightarrow> string" where
  "zero_pad w s = replicate (w - length s) CHR ''0'' @ s"

definition strftime_Ymd :: "date \<Rightarrow> string" where
  "strftime_Ymd d =
     zero_pad 4 (str_int (year d)) @ ''-'' @ zero_pad 2 (str_int (month d)) @ ''-'' @
     zero_pad 2 (str_int (day d))"

text \<open>
  The edit page (lines 469 to 484) overwrites the date cell, the amount and the note of the
  row at \<^verbatim>\<open>selected_index\<close> and writes the file; the date is written as text. The next run
  loads the file again, so every date is parsed anew from the column as it then is. The
  index is taken from the frame's own index, so it is always in range; \<open>None\<close> stands for
  an index that the page cannot produce.
\<close>

definition edit_payment ::
  "stored_payment list \<Rightarrow> nat \<Rightarrow> date \<Rightarrow> real \<Rightarrow> string \<Rightarrow> stored_payment list option" where
  "edit_payment stored selected_index new_date new_amount new_note =
     (if selected_index < length stored then
        Some (stored[selected_index :=
          (stored ! selected_index)
            \<lparr>stored_date := strftime_Ymd new_date, stored_amount := new_amount,
             stored_note := new_note\<rparr>])
      else None)"

text \<open>
  One behaviour of the library, for the runs that need a concrete parser: on a column of
  texts the format is taken from the first cell, and a cell that does not follow that
  format becomes \<^verbatim>\<open>NaT\<close>. Two formats are modelled, \<^verbatim>\<open>%Y-%m-%d\<close> and \<^verbatim>\<open>%Y/%m/%d\<close>; for a
  column whose first cell follows neither, this instance answers \<^verbatim>\<open>NaT\<close> throughout, which
  is not claimed of the library.
\<close>

definition digit_value :: "char \<Rightarrow> nat option" where
  "digit_value c =
     (let n = of_char c :: nat in if 48 \<le> n \<and> n \<le> 57 then Some (n - 48) else None)"

fun digits_acc :: "nat \<Rightarrow> string \<Rightarrow> nat option" where
  "digits_acc a [] = Some a"
| "digits_acc a (c # cs) =
     (case digit_value c of None \<Rightarrow> None | Some v \<Rightarrow> digits_acc (10 * a + v) cs)"

definition digits_value :: "string \<Rightarrow> nat option" where
  "digits_value s = (if s = [] then None else digits_acc 0 s)"

definition parse_ymd :: "char \<Rightarrow> string \<Rightarrow> date option" where
  "parse_ymd sep s =
     (if length s = 10 \<and> s ! 4 = sep \<and> s ! 7 = sep then
        (case (digits_value (take 4 s), digits_value (take 2 (drop 5 s)), digits_value (drop 8 s)) of
           (Some y, Some m, Some d) \<Rightarrow>
             (let parsed = \<lparr>year = int y, month = int m, day = int d\<rparr>
              in if valid_date parsed then Some parsed else None)
         | _ \<Rightarrow> None)
      else None)"

definition guess_separator :: "string \<Rightarrow> char option" where
  "guess_separator s =
     (if parse_ymd CHR ''-'' s \<noteq> None then Some CHR ''-''
      else if parse_ymd CHR ''/'' s \<noteq> None then Some CHR ''/''
      else None)"

definition to_datetime_first_format :: to_datetime where
  "to_datetime_first_format column i =
     (case column of
        [] \<Rightarrow> None
      | first_cell # _ \<Rightarrow>
          (case guess_separator first_cell of
             None \<Rightarrow> None
           | Some sep \<Rightarrow> if i < length column then parse_ymd sep (column ! i) else None))"

section \<open>The function with its effects\<close>





section \<open>The loop and its rows\<close>

lemma summary_loop_eq:
  "summary_loop rq n df t is (rows, pens) =
     (rows @ map (\<lambda>i. fst (fiscal_year_pass rq n df t i)) is,
      pens @ concat (map (\<lambda>i. case snd (fiscal_year_pass rq n df t i) of None \<Rightarrow> [] | Some e \<Rightarrow> [e]) is))"
  by (induction "is" arbitrary: rows pens) (auto split: prod.splits option.splits)

lemma summary_data_eq:
  "summary_data (display_customer_summary n ca df t) =
     map (\<lambda>i. fst (fiscal_year_pass
        (if (case ca n of None \<Rightarrow> 0 | Some a \<Rightarrow> a) > 0 then (case ca n of None \<Rightarrow> 0 | Some a \<Rightarrow> a) / 4 else 0) n df t i)) [0 ..< 4]"
  by (simp add: display_customer_summary_def Let_def summary_loop_eq)

lemma pass_paid:
  "paid (fst (fiscal_year_pass rq n df t i)) =
     sum_list (map amount (filter (in_df_year n
        \<lparr>year = start_contract_fiscal_year + int i, month = 4, day = 5\<rparr>
        \<lparr>year = start_contract_fiscal_year + int i + 1, month = 3, day = 5\<rparr>) df))"
  by (simp add: fiscal_year_pass_def Let_def split: prod.splits)

lemma pass_required: "required (fst (fiscal_year_pass rq n df t i)) = rq"
  by (simp add: fiscal_year_pass_def Let_def split: prod.splits)

lemma pass_remaining:
  "remaining (fst (fiscal_year_pass rq n df t i)) = max 0 (rq - paid (fst (fiscal_year_pass rq n df t i)))"
  by (simp add: fiscal_year_pass_def Let_def split: prod.splits)

lemma pass_label:
  "fiscal_label (fst (fiscal_year_pass rq n df t i)) =
     str_int (start_contract_fiscal_year + int i) @ ''-'' @ str_int (start_contract_fiscal_year + int i + 1)"
  by (simp add: fiscal_year_pass_def Let_def split: prod.splits)

lemma pass_status:
  "penalty_status_text (fst (fiscal_year_pass rq n df t i)) =
     (let r = remaining (fst (fiscal_year_pass rq n df t i)) in
      if r > 0 then
        (if date_gt t \<lparr>year = start_contract_fiscal_year + int i + 1, month = 3, day = 3\<rparr>
         then Penalty_Amount (r * 0.15) else Penalty_Pending)
      else Penalty_None)"
  by (auto simp add: fiscal_year_pass_def Let_def max_def split: prod.splits)

lemma date_gt_iff_not_le: "date_gt a b \<longleftrightarrow> \<not> date_le a b"
  by (auto simp: date_gt_def date_lt_def date_le_def)

lemma date_le_refl: "date_le a a"
  by (simp add: date_le_def)

lemma summary_data_length: "length (summary_data (display_customer_summary n ca df t)) = 4"
  by (simp add: summary_data_eq)

lemma summary_data_nth:
  "i < 4 \<Longrightarrow> summary_data (display_customer_summary n ca df t) ! i =
     fst (fiscal_year_pass
        (if (case ca n of None \<Rightarrow> 0 | Some a \<Rightarrow> a) > 0 then (case ca n of None \<Rightarrow> 0 | Some a \<Rightarrow> a) / 4 else 0) n df t i)"
  by (simp add: summary_data_eq)

lemma pass_remaining_nonneg: "0 \<le> remaining (fst (fiscal_year_pass rq n df t i))"
  by (simp add: pass_remaining)

text \<open>The definitions that evaluate the summary on a concrete input.\<close>

lemmas eval_defs = display_customer_summary_def upt_rec fiscal_year_pass_def Let_def in_df_year_def
  date_ge_def date_le_def date_gt_def date_lt_def start_contract_fiscal_year_def
  str_int_def str_nat.simps digit_char_def

lemma total_due_eq:
  "total_due (display_customer_summary n ca df t) = (case ca n of None \<Rightarrow> 0 | Some a \<Rightarrow> a)"
  by (simp add: display_customer_summary_def Let_def split: prod.splits)

lemma total_paid_eq:
  "total_paid_all_time (display_customer_summary n ca df t) =
     sum_list (map amount (filter (\<lambda>p. customer p = n) df))"
  by (simp add: display_customer_summary_def Let_def split: prod.splits)

lemma total_remaining_eq:
  "total_remaining (display_customer_summary n ca df t) =
     total_due (display_customer_summary n ca df t) - total_paid_all_time (display_customer_summary n ca df t)"
  by (simp add: display_customer_summary_def Let_def split: prod.splits)


lemma in_df_year_None: "payment_date_dt p = None \<Longrightarrow> \<not> in_df_year n a b p"
  by (simp add: in_df_year_def)

lemma pass_drop_unfiltered:
  "(\<And>a b. \<not> in_df_year n a b p) \<Longrightarrow>
   fiscal_year_pass rq n (ps @ p # qs) t i = fiscal_year_pass rq n (ps @ qs) t i"
  by (simp add: fiscal_year_pass_def)

lemma pass_drop_outside:
  "\<not> in_df_year n \<lparr>year = start_contract_fiscal_year + int i, month = 4, day = 5\<rparr>
        \<lparr>year = start_contract_fiscal_year + int i + 1, month = 3, day = 5\<rparr> p \<Longrightarrow>
   fiscal_year_pass rq n (ps @ p # qs) t i = fiscal_year_pass rq n (ps @ qs) t i"
  by (simp add: fiscal_year_pass_def Let_def)

lemma pass_paid_insert:
  "paid (fst (fiscal_year_pass rq n (ps @ p # qs) t i)) =
     paid (fst (fiscal_year_pass rq n (ps @ qs) t i)) +
     (if in_df_year n \<lparr>year = start_contract_fiscal_year + int i, month = 4, day = 5\<rparr>
          \<lparr>year = start_contract_fiscal_year + int i + 1, month = 3, day = 5\<rparr> p
      then amount p else 0)"
  by (simp add: pass_paid)

lemma gap_date_outside:
  "date_lt \<lparr>year = y, month = 3, day = 5\<rparr> d \<Longrightarrow> date_lt d \<lparr>year = y, month = 4, day = 5\<rparr> \<Longrightarrow>
   \<not> (date_ge d \<lparr>year = a, month = 4, day = 5\<rparr> \<and> date_le d \<lparr>year = a + 1, month = 3, day = 5\<rparr>)"
  by (auto simp: date_lt_def date_le_def date_ge_def)

lemma gap_date_not_in_df_year:
  "payment_date_dt p = Some d \<Longrightarrow>
   date_lt \<lparr>year = y, month = 3, day = 5\<rparr> d \<Longrightarrow> date_lt d \<lparr>year = y, month = 4, day = 5\<rparr> \<Longrightarrow>
   \<not> in_df_year n \<lparr>year = a, month = 4, day = 5\<rparr> \<lparr>year = a + 1, month = 3, day = 5\<rparr> p"
  using gap_date_outside [of y d a] by (simp add: in_df_year_def)

lemma gap_date_label:
  "date_lt \<lparr>year = y + 1, month = 3, day = 5\<rparr> d \<Longrightarrow> date_lt d \<lparr>year = y + 1, month = 4, day = 5\<rparr> \<Longrightarrow>
   get_fiscal_year_string d = str_int y @ ''-'' @ str_int (y + 1)"
  by (auto simp: date_lt_def get_fiscal_year_string_def Let_def)

section \<open>Labels name their fiscal year\<close>

lemma digit_char_code: "d < 10 \<Longrightarrow> of_char (digit_char d) = 48 + d"
proof -
  assume "d < 10"
  then have "d \<in> {0, 1, 2, 3, 4, 5, 6, 7, 8, 9}"
    by auto
  then show ?thesis
    by (auto simp: digit_char_def)
qed

lemma digit_char_inj: "a < 10 \<Longrightarrow> b < 10 \<Longrightarrow> digit_char a = digit_char b \<Longrightarrow> a = b"
proof -
  assume a: "a < 10" and b: "b < 10" and e: "digit_char a = digit_char b"
  from e have "(of_char (digit_char a) :: nat) = of_char (digit_char b)"
    by simp
  with a b show ?thesis
    by (simp add: digit_char_code)
qed

lemma digit_char_not_dash: "d < 10 \<Longrightarrow> digit_char d \<noteq> CHR ''-''"
proof -
  assume d: "d < 10"
  show ?thesis
  proof
    assume "digit_char d = CHR ''-''"
    then have "(of_char (digit_char d) :: nat) = of_char CHR ''-''"
      by simp
    with d show False
      by (simp add: digit_char_code)
  qed
qed

lemma str_nat_not_Nil: "str_nat n \<noteq> []"
  by (subst str_nat.simps) simp

lemma str_nat_no_dash: "CHR ''-'' \<notin> set (str_nat n)"
proof (induction n rule: str_nat.induct)
  case (1 n)
  show ?case
  proof (cases "n < 10")
    case True
    then show ?thesis
      by (subst str_nat.simps) (simp add: digit_char_not_dash [symmetric])
  next
    case False
    with 1 have "CHR ''-'' \<notin> set (str_nat (n div 10))"
      by simp
    moreover have "digit_char (n mod 10) \<noteq> CHR ''-''"
      by (simp add: digit_char_not_dash)
    ultimately show ?thesis
      using False by (subst str_nat.simps) auto
  qed
qed

lemma str_nat_inj: "str_nat m = str_nat n \<Longrightarrow> m = n"
proof (induction m arbitrary: n rule: str_nat.induct)
  case (1 m)
  show ?case
  proof (cases "m < 10")
    case m: True
    show ?thesis
    proof (cases "n < 10")
      case True
      with m "1.prems" show ?thesis
        by (simp add: str_nat.simps [of m] str_nat.simps [of n] digit_char_inj)
    next
      case False
      with m "1.prems" have "[digit_char m] = str_nat (n div 10) @ [digit_char (n mod 10)]"
        by (simp add: str_nat.simps [of m] str_nat.simps [of n])
      then have "str_nat (n div 10) = []"
        by simp
      then show ?thesis
        by (simp add: str_nat_not_Nil)
    qed
  next
    case m: False
    show ?thesis
    proof (cases "n < 10")
      case True
      with m "1.prems" have "str_nat (m div 10) @ [digit_char (m mod 10)] = [digit_char n]"
        by (simp add: str_nat.simps [of m] str_nat.simps [of n])
      then have "str_nat (m div 10) = []"
        by simp
      then show ?thesis
        by (simp add: str_nat_not_Nil)
    next
      case False
      with m "1.prems" have e: "str_nat (m div 10) @ [digit_char (m mod 10)] =
          str_nat (n div 10) @ [digit_char (n mod 10)]"
        by (simp add: str_nat.simps [of m] str_nat.simps [of n])
      then have "str_nat (m div 10) = str_nat (n div 10)"
        and d: "digit_char (m mod 10) = digit_char (n mod 10)"
        by simp_all
      with m "1.IH" have q: "m div 10 = n div 10"
        by simp
      from d have r: "m mod 10 = n mod 10"
        by (rule digit_char_inj [rotated 2]) simp_all
      have "m = 10 * (m div 10) + m mod 10"
        by simp
      also have "\<dots> = 10 * (n div 10) + n mod 10"
        by (simp only: q r)
      finally show ?thesis
        by simp
    qed
  qed
qed

lemma fiscal_label_inj:
  "0 \<le> a \<Longrightarrow> 0 \<le> b \<Longrightarrow>
   str_int a @ ''-'' @ str_int (a + 1) = str_int b @ ''-'' @ str_int (b + 1) \<Longrightarrow> a = b"
proof -
  assume a: "0 \<le> a" and b: "0 \<le> b"
    and e: "str_int a @ ''-'' @ str_int (a + 1) = str_int b @ ''-'' @ str_int (b + 1)"
  from a b e have "str_nat (nat a) @ CHR ''-'' # str_nat (nat (a + 1)) =
      str_nat (nat b) @ CHR ''-'' # str_nat (nat (b + 1))"
    by (simp add: str_int_def)
  then have "str_nat (nat a) = str_nat (nat b)"
    by (simp add: append_Cons_eq_iff str_nat_no_dash)
  then have "nat a = nat b"
    by (rule str_nat_inj)
  with a b show ?thesis
    by simp
qed

section \<open>Looking a label up in the summary\<close>

lemma find_year_data_None:
  "find_year_data s rows = None \<longleftrightarrow> (\<forall>r\<in>set rows. fiscal_label r \<noteq> s)"
  by (induction rows) auto

lemma find_year_data_Some:
  "find_year_data s rows = Some r \<Longrightarrow> r \<in> set rows \<and> fiscal_label r = s"
  by (induction rows) (auto split: if_splits)

lemma find_year_data_map:
  "inj_on (\<lambda>i. fiscal_label (f i)) (set js) \<Longrightarrow> i \<in> set js \<Longrightarrow>
   find_year_data (fiscal_label (f i)) (map f js) = Some (f i)"
  by (induction js) (auto simp: inj_on_def)

lemma pass_label_inj:
  "inj_on (\<lambda>i. fiscal_label (fst (fiscal_year_pass rq n df t i))) A"
proof (rule inj_onI)
  fix i j
  assume "fiscal_label (fst (fiscal_year_pass rq n df t i)) =
      fiscal_label (fst (fiscal_year_pass rq n df t j))"
  then have "start_contract_fiscal_year + int i = start_contract_fiscal_year + int j"
    unfolding pass_label
    by (intro fiscal_label_inj) (simp_all add: start_contract_fiscal_year_def)
  then show "i = j"
    by simp
qed

lemma find_year_data_schedule:
  "i < 4 \<Longrightarrow>
   find_year_data
     (str_int (start_contract_fiscal_year + int i) @ ''-'' @ str_int (start_contract_fiscal_year + int i + 1))
     (summary_data (display_customer_summary n ca df t)) =
   Some (summary_data (display_customer_summary n ca df t) ! i)"
proof -
  assume i: "i < 4"
  define rq where "rq = (if (case ca n of None \<Rightarrow> 0 | Some a \<Rightarrow> a) > 0
     then (case ca n of None \<Rightarrow> 0 | Some a \<Rightarrow> a) / 4 else (0::real))"
  define f where "f = (\<lambda>i. fst (fiscal_year_pass rq n df t i))"
  have rows: "summary_data (display_customer_summary n ca df t) = map f [0 ..< 4]"
    by (simp add: summary_data_eq f_def rq_def)
  have inj: "inj_on (\<lambda>i. fiscal_label (f i)) (set [0 ..< 4])"
    unfolding f_def by (rule pass_label_inj)
  have "find_year_data (fiscal_label (f i)) (map f [0 ..< 4]) = Some (f i)"
    using inj i by (intro find_year_data_map) simp_all
  moreover have "fiscal_label (f i) =
      str_int (start_contract_fiscal_year + int i) @ ''-'' @ str_int (start_contract_fiscal_year + int i + 1)"
    by (simp add: f_def pass_label)
  moreover have "map f [0 ..< 4] ! i = f i"
    using i by simp
  ultimately show ?thesis
    by (simp add: rows)
qed

lemma find_year_data_schedule_None:
  "0 \<le> y \<Longrightarrow> y < start_contract_fiscal_year \<or> start_contract_fiscal_year + 4 \<le> y \<Longrightarrow>
   find_year_data (str_int y @ ''-'' @ str_int (y + 1))
     (summary_data (display_customer_summary n ca df t)) = None"
proof -
  assume y: "0 \<le> y" and out: "y < start_contract_fiscal_year \<or> start_contract_fiscal_year + 4 \<le> y"
  have "fiscal_label r \<noteq> str_int y @ ''-'' @ str_int (y + 1)"
    if "r \<in> set (summary_data (display_customer_summary n ca df t))" for r
  proof
    assume e: "fiscal_label r = str_int y @ ''-'' @ str_int (y + 1)"
    from that obtain i where i: "i < 4"
      and "fiscal_label r = str_int (start_contract_fiscal_year + int i) @ ''-'' @
         str_int (start_contract_fiscal_year + int i + 1)"
      by (auto simp: summary_data_eq pass_label)
    with e have "start_contract_fiscal_year + int i = y"
      by (intro fiscal_label_inj) (use y in \<open>simp_all add: start_contract_fiscal_year_def\<close>)
    with i out show False
      by auto
  qed
  then show ?thesis
    by (simp add: find_year_data_None)
qed

lemma get_fiscal_year_string_eq:
  "get_fiscal_year_string d =
     (if month d < 4 \<or> (month d = 4 \<and> day d < 5)
      then str_int (year d - 1) @ ''-'' @ str_int (year d)
      else str_int (year d) @ ''-'' @ str_int (year d + 1))"
  by (simp add: get_fiscal_year_string_def Let_def)

section \<open>Rounding to a float\<close>

lemma pow2_powr: "pow2 e = 2 powr real_of_int e"
  by (simp add: pow2_def powr_real_of_int inverse_eq_divide)

lemma pow2_add: "pow2 (a + b) = pow2 a * pow2 b"
  by (simp add: pow2_powr powr_add)

lemma pow2_pos: "0 < pow2 e"
  by (simp add: pow2_powr)

lemma pow2_nat: "pow2 (int s) = 2 ^ s"
  by (simp add: pow2_def)

lemma pow2_minus2: "pow2 (- 2) = 1 / 4"
  by (simp add: pow2_def)

lemma pow2_shift2: "pow2 (e - 2) = pow2 e / 4"
  using pow2_add [of e "- 2"] by (simp add: pow2_minus2)

lemma bit_length_upper: "n < 2 ^ bit_length n"
proof (induction n rule: bit_length.induct)
  case (1 n)
  show ?case
  proof (cases "n = 0")
    case True
    then show ?thesis by simp
  next
    case False
    with 1 have "n div 2 < 2 ^ bit_length (n div 2)"
      by simp
    then have "n < 2 * 2 ^ bit_length (n div 2)"
      by linarith
    with False show ?thesis
      by (subst bit_length.simps) simp
  qed
qed

lemma bit_length_lower: "0 < n \<Longrightarrow> 2 ^ (bit_length n - 1) \<le> n"
proof (induction n rule: bit_length.induct)
  case (1 n)
  show ?case
  proof (cases "n div 2 = 0")
    case True
    with "1.prems" have "bit_length n = 1"
      by (simp add: bit_length.simps [of n] bit_length.simps [of 0])
    with "1.prems" show ?thesis
      by simp
  next
    case False
    with 1 have ih: "2 ^ (bit_length (n div 2) - 1) \<le> n div 2"
      by simp
    from False have pos: "0 < bit_length (n div 2)"
      by (simp add: bit_length.simps [of "n div 2"])
    from "1.prems" have "bit_length n = Suc (bit_length (n div 2))"
      by (simp add: bit_length.simps [of n])
    then have "2 ^ (bit_length n - 1) = 2 * 2 ^ (bit_length (n div 2) - 1)"
      using pos by (cases "bit_length (n div 2)") simp_all
    also have "\<dots> \<le> 2 * (n div 2)"
      using ih by simp
    also have "\<dots> \<le> n"
      by simp
    finally show ?thesis .
  qed
qed

lemma bit_length_le: "n < 2 ^ k \<Longrightarrow> bit_length n \<le> k"
proof (rule ccontr)
  assume n: "n < 2 ^ k" and "\<not> bit_length n \<le> k"
  then have k: "k \<le> bit_length n - 1" and pos: "0 < n"
    by (auto simp: bit_length.simps [of n] split: if_splits)
  have "(2::nat) ^ k \<le> 2 ^ (bit_length n - 1)"
    using k by (simp add: power_increasing)
  also have "\<dots> \<le> n"
    using pos by (rule bit_length_lower)
  finally show False
    using n by simp
qed

lemma round_half_even_bounds:
  "0 < d \<Longrightarrow> n div d \<le> round_half_even n d \<and> round_half_even n d \<le> n div d + 1"
  by (simp add: round_half_even_def Let_def)

lemma round_half_even_exact: "0 < d \<Longrightarrow> n mod d = 0 \<Longrightarrow> round_half_even n d = n div d"
  by (simp add: round_half_even_def Let_def)

lemma round_half_even_error:
  "0 < d \<Longrightarrow> \<bar>real_of_int (round_half_even n d) - real_of_int n / real_of_int d\<bar> \<le> 1 / 2"
proof -
  assume d: "0 < d"
  define q where "q = n div d"
  define r where "r = n mod d"
  have n: "n = q * d + r"
    by (simp add: q_def r_def)
  have r: "0 \<le> r" "r < d"
    using d by (simp_all add: r_def)
  have quot: "real_of_int n / real_of_int d = real_of_int q + real_of_int r / real_of_int d"
    using d by (simp add: n field_simps)
  consider "2 * r < d" | "d < 2 * r" | "2 * r = d"
    by linarith
  then show ?thesis
  proof cases
    case 1
    then have "round_half_even n d = q"
      by (simp add: round_half_even_def Let_def q_def r_def)
    moreover have "real_of_int r / real_of_int d \<le> 1 / 2"
      using 1 d by (simp add: field_simps)
    moreover have "0 \<le> real_of_int r / real_of_int d"
      using r d by simp
    ultimately show ?thesis
      by (simp add: quot)
  next
    case 2
    then have "round_half_even n d = q + 1"
      by (simp add: round_half_even_def Let_def q_def r_def)
    moreover have "1 / 2 \<le> real_of_int r / real_of_int d"
      using 2 d by (simp add: field_simps)
    moreover have "real_of_int r / real_of_int d \<le> 1"
      using r d by (simp add: field_simps)
    ultimately show ?thesis
      by (simp add: quot)
  next
    case 3
    then have "round_half_even n d = q \<or> round_half_even n d = q + 1"
      by (simp add: round_half_even_def Let_def q_def r_def)
    moreover have frac: "real_of_int r / real_of_int d = 1 / 2"
      using 3 d by (simp add: field_simps)
    moreover have "real_of_int n / real_of_int d = real_of_int q + 1 / 2"
      unfolding quot frac ..
    ultimately show ?thesis
      by auto
  qed
qed

lemma int_truediv_4_value:
  "int_truediv_4 n = Inr r \<Longrightarrow> py_value r = real_of_int (round_to_53_bits n) / 4"
proof -
  assume h: "int_truediv_4 n = Inr r"
  define k where "k = bit_length (nat \<bar>n\<bar>)"
  show ?thesis
  proof (cases "k \<le> 53")
    case True
    with h have "r = Py_float n (- 2)"
      by (simp add: int_truediv_4_def Let_def k_def)
    with True show ?thesis
      by (simp add: round_to_53_bits_def Let_def k_def pow2_minus2)
  next
    case False
    define s where "s = k - 53"
    define m where "m = round_half_even n (2 ^ s)"
    have rnd: "round_to_53_bits n = m * 2 ^ s"
      using False by (simp add: round_to_53_bits_def Let_def k_def [symmetric] s_def m_def)
    from False have s: "0 < s"
      by (simp add: s_def)
    have shift: "pow2 (int s - 2) = 2 ^ s / 4"
      by (simp add: pow2_shift2 pow2_nat)
    have shift1: "pow2 (int s - 1) = 2 ^ s / 2"
      using pow2_add [of "int s" "- 1"] by (simp add: pow2_nat pow2_def)
    from h False have cases: "(\<bar>m\<bar> = 2 ^ 53 \<and> r = Py_float (m div 2) (int s - 1)) \<or>
        r = Py_float m (int s - 2)"
      by (auto simp: int_truediv_4_def Let_def k_def [symmetric] s_def [symmetric] m_def [symmetric]
          split: if_splits)
    then show ?thesis
    proof
      assume a: "\<bar>m\<bar> = 2 ^ 53 \<and> r = Py_float (m div 2) (int s - 1)"
      then have "even \<bar>m\<bar>"
        by simp
      then have "even m"
        by simp
      then have "real_of_int (m div 2) = real_of_int m / 2"
        by (simp add: real_of_int_div)
      with a show ?thesis
        by (simp add: rnd shift1)
    next
      assume "r = Py_float m (int s - 2)"
      then show ?thesis
        by (simp add: rnd shift)
    qed
  qed
qed

lemma int_truediv_4_overflow:
  "0 \<le> n \<Longrightarrow> int_truediv_4 n = Inl err \<Longrightarrow> 2 ^ 1025 \<le> n"
proof -
  assume n: "0 \<le> n" and h: "int_truediv_4 n = Inl err"
  define k where "k = bit_length (nat \<bar>n\<bar>)"
  define s where "s = k - 53"
  define m where "m = round_half_even n (2 ^ s)"
  from h have k: "53 < k" and big: "2 ^ 1026 \<le> \<bar>m\<bar> * 2 ^ s"
    by (auto simp: int_truediv_4_def Let_def k_def [symmetric] s_def [symmetric] m_def [symmetric]
        split: if_splits)
  have pos: "0 < nat n"
  proof (rule ccontr)
    assume "\<not> 0 < nat n"
    with n have "n = 0"
      by simp
    then have "k = 0"
      by (simp add: k_def bit_length.simps)
    with k show False
      by simp
  qed
  have "2 ^ (k - 1) \<le> nat n"
    using bit_length_lower [OF pos] n by (simp add: k_def)
  moreover have "(2::nat) ^ s \<le> 2 ^ (k - 1)"
    by (rule power_increasing) (simp_all add: s_def)
  ultimately have "2 ^ s \<le> nat n"
    by linarith
  then have "int (2 ^ s) \<le> int (nat n)"
    by (simp only: of_nat_le_iff)
  then have d: "(2::int) ^ s \<le> n"
    using n by simp
  have b: "n div 2 ^ s \<le> m" "m \<le> n div 2 ^ s + 1"
    using round_half_even_bounds [of "2 ^ s" n] by (simp_all add: m_def)
  have q0: "0 \<le> n div 2 ^ s"
    using n by (simp add: pos_imp_zdiv_nonneg_iff)
  have "0 \<le> n mod 2 ^ s"
    by simp
  then have "n div 2 ^ s * 2 ^ s \<le> n"
    using div_mult_mod_eq [of n "2 ^ s"] by linarith
  moreover have "m * 2 ^ s \<le> (n div 2 ^ s + 1) * 2 ^ s"
    using b by (simp add: mult_right_mono)
  ultimately have "m * 2 ^ s \<le> n + 2 ^ s"
    by (simp add: algebra_simps)
  moreover have "\<bar>m\<bar> = m"
    using b q0 by simp
  ultimately have "2 ^ 1026 \<le> 2 * n"
    using big d by linarith
  then show ?thesis
    by simp
qed

lemma round_to_53_bits_small: "0 \<le> n \<Longrightarrow> n \<le> 2 ^ 53 \<Longrightarrow> round_to_53_bits n = n"
proof -
  assume n: "0 \<le> n" and le: "n \<le> 2 ^ 53"
  show ?thesis
  proof (cases "n = 2 ^ 53")
    case True
    then show ?thesis
      by (simp add: round_to_53_bits_def Let_def bit_length.simps round_half_even_def)
  next
    case False
    with le have "n < 2 ^ 53"
      by simp
    with n have "nat \<bar>n\<bar> < 2 ^ 53"
      by (simp add: nat_less_iff)
    then have "bit_length (nat \<bar>n\<bar>) \<le> 53"
      by (rule bit_length_le)
    then show ?thesis
      by (simp add: round_to_53_bits_def Let_def)
  qed
qed

lemma float_truediv_4_exact:
  "- 1072 \<le> e \<Longrightarrow> py_value (float_truediv_4 m e) = py_value (Py_float m e) / 4"
  by (simp add: float_truediv_4_def pow2_shift2)

lemma float_truediv_4_near:
  "- 1074 \<le> e \<Longrightarrow> \<bar>4 * py_value (float_truediv_4 m e) - py_value (Py_float m e)\<bar> \<le> 1 / 10 ^ 9"
proof (cases "- 1072 \<le> e")
  case True
  then show ?thesis
    by (simp add: float_truediv_4_exact)
next
  case False
  assume lo: "- 1074 \<le> e"
  define k where "k = nat (- 1072 - e)"
  define x where "x = round_half_even m (2 ^ k)"
  have r: "float_truediv_4 m e = Py_float x (- 1074)"
    using False by (simp add: float_truediv_4_def k_def x_def)
  have e: "e = - 1072 - int k"
    using False by (simp add: k_def)
  have pe: "pow2 e = pow2 (- 1072) / 2 ^ k"
    using pow2_add [of e "int k"] by (simp add: e pow2_nat field_simps)
  have p4: "4 * pow2 (- 1074) = pow2 (- 1072)"
    using pow2_shift2 [of "- 1072"] by simp
  have "4 * py_value (float_truediv_4 m e) - py_value (Py_float m e) =
      pow2 (- 1072) * (real_of_int x - real_of_int m / real_of_int (2 ^ k))"
    using p4 by (simp add: r pe algebra_simps)
  then have "\<bar>4 * py_value (float_truediv_4 m e) - py_value (Py_float m e)\<bar> =
      pow2 (- 1072) * \<bar>real_of_int x - real_of_int m / real_of_int (2 ^ k)\<bar>"
    using pow2_pos [of "- 1072"] by (simp add: abs_mult)
  also have "\<dots> \<le> pow2 (- 1072) * (1 / 2)"
    using round_half_even_error [of "2 ^ k" m] pow2_pos [of "- 1072"]
    by (intro mult_left_mono) (simp_all add: x_def)
  also have "\<dots> \<le> 1 / 10 ^ 9"
    by (simp add: pow2_def)
  finally show ?thesis .
qed

lemma summary_loop_rows:
  "fst (summary_loop rq n df t [0 ..< 4] ([], [])) =
     map (\<lambda>i. fst (fiscal_year_pass rq n df t i)) [0 ..< 4]"
  by (simp add: summary_loop_eq)

lemma summary_loop_required:
  "length (fst (summary_loop rq n df t [0 ..< 4] ([], []))) = 4 \<and>
   (\<forall>i<4. required (fst (summary_loop rq n df t [0 ..< 4] ([], [])) ! i) = rq) \<and>
   sum_list (map required (fst (summary_loop rq n df t [0 ..< 4] ([], [])))) = 4 * rq"
proof -
  have "map required (fst (summary_loop rq n df t [0 ..< 4] ([], []))) = map (\<lambda>i. rq) [0 ..< 4]"
    by (simp add: summary_loop_rows pass_required comp_def)
  then have "sum_list (map required (fst (summary_loop rq n df t [0 ..< 4] ([], [])))) = 4 * rq"
    by (simp add: upt_rec)
  then show ?thesis
    by (simp add: summary_loop_rows pass_required)
qed

lemma required_yearly_value:
  "py_well_formed td \<Longrightarrow> 0 \<le> py_value td \<Longrightarrow> required_yearly td = Inr r \<Longrightarrow>
   (py_value td = 0 \<longrightarrow> py_value r = 0) \<and>
   (case td of
      Py_float m e \<Rightarrow>
        (- 1072 \<le> e \<longrightarrow> py_value r = py_value td / 4) \<and>
        \<bar>4 * py_value r - py_value td\<bar> \<le> 1 / 10 ^ 9
    | Py_int n \<Rightarrow> py_value r = real_of_int (round_to_53_bits n) / 4)"
proof -
  assume wf: "py_well_formed td" and nonneg: "0 \<le> py_value td" and h: "required_yearly td = Inr r"
  show ?thesis
  proof (cases "py_value td > 0")
    case False
    with nonneg have z: "py_value td = 0"
      by simp
    with h have r: "py_value r = 0"
      by (auto simp: required_yearly_def)
    show ?thesis
    proof (cases td)
      case (Py_int n)
      with z have "n = 0"
        by simp
      then have "round_to_53_bits n = 0"
        by (simp add: round_to_53_bits_small)
      with Py_int r z show ?thesis
        by simp
    next
      case (Py_float m e)
      have "(- 1072 \<le> e \<longrightarrow> py_value r = py_value td / 4) \<and>
          \<bar>4 * py_value r - py_value td\<bar> \<le> 1 / 10 ^ 9"
        by (simp add: r z)
      with z r show ?thesis
        unfolding Py_float py_number.case by blast
    qed
  next
    case True
    show ?thesis
    proof (cases td)
      case (Py_int n)
      with h True have "int_truediv_4 n = Inr r"
        by (simp add: required_yearly_def)
      then have "py_value r = real_of_int (round_to_53_bits n) / 4"
        by (rule int_truediv_4_value)
      with Py_int True show ?thesis
        by simp
    next
      case (Py_float m e)
      with h True have r: "r = float_truediv_4 m e"
        by (simp add: required_yearly_def)
      from wf Py_float have lo: "- 1074 \<le> e"
        by simp
      have p: "py_value td \<noteq> 0"
        using True by simp
      have "(- 1072 \<le> e \<longrightarrow> py_value r = py_value td / 4) \<and>
          \<bar>4 * py_value r - py_value td\<bar> \<le> 1 / 10 ^ 9"
        using float_truediv_4_exact [of e m] float_truediv_4_near [OF lo, of m]
        unfolding r Py_float by blast
      with p show ?thesis
        unfolding Py_float py_number.case by blast
    qed
  qed
qed

lemma required_yearly_error:
  "0 \<le> py_value td \<Longrightarrow> required_yearly td = Inl err \<Longrightarrow>
   (case td of Py_int n \<Rightarrow> 2 ^ 1025 \<le> n | Py_float m e \<Rightarrow> False)"
proof (cases td)
  case (Py_int n)
  assume "0 \<le> py_value td" and "required_yearly td = Inl err"
  with Py_int have "0 \<le> n" and "int_truediv_4 n = Inl err"
    by (auto simp: required_yearly_def split: if_splits)
  then have "2 ^ 1025 \<le> n"
    by (rule int_truediv_4_overflow)
  with Py_int show ?thesis
    by simp
next
  case (Py_float m e)
  assume "required_yearly td = Inl err"
  with Py_float show ?thesis
    by (simp add: required_yearly_def split: if_splits)
qed

section \<open>The penalty rule\<close>

text \<open>
  Claim C1. For each of the four rows \<open>i\<close>, with the cutoff March 3 of the year after the
  row's fiscal start year: a remaining amount of 0 gives the status "none"; otherwise an
  evaluation date on or before the cutoff gives "pending", which carries no amount; otherwise
  the status is the penalty, 15 percent of the remaining amount. On the cutoff day itself the
  row is still pending, and a penalty is shown only when the evaluation date is strictly
  after the cutoff.
\<close>

theorem C1_penalty_rule:
  "i < 4 \<Longrightarrow>
   (let row = summary_data (display_customer_summary customer_name customer_amounts payments_df today) ! i;
        cutoff = \<lparr>year = start_contract_fiscal_year + int i + 1, month = 3, day = 3\<rparr>
    in (remaining row = 0 \<longrightarrow> penalty_status_text row = Penalty_None) \<and>
       (remaining row \<noteq> 0 \<and> date_le today cutoff \<longrightarrow>
          penalty_status_text row = Penalty_Pending) \<and>
       (remaining row \<noteq> 0 \<and> \<not> date_le today cutoff \<longrightarrow>
          penalty_status_text row = Penalty_Amount (remaining row * 0.15)) \<and>
       (remaining row \<noteq> 0 \<and> today = cutoff \<longrightarrow> penalty_status_text row = Penalty_Pending) \<and>
       (\<forall>a. penalty_status_text row = Penalty_Amount a \<longrightarrow> date_lt cutoff today))"
proof -
  assume i: "i < 4"
  define rq where "rq = (if (case customer_amounts customer_name of None \<Rightarrow> 0 | Some a \<Rightarrow> a) > 0
     then (case customer_amounts customer_name of None \<Rightarrow> 0 | Some a \<Rightarrow> a) / 4 else (0::real))"
  define row where "row = fst (fiscal_year_pass rq customer_name payments_df today i)"
  define cutoff where "cutoff = \<lparr>year = start_contract_fiscal_year + int i + 1, month = 3, day = 3\<rparr>"
  have nth: "summary_data (display_customer_summary customer_name customer_amounts payments_df today) ! i = row"
    using i by (simp add: summary_data_nth row_def rq_def)
  have nonneg: "0 \<le> remaining row"
    by (simp add: row_def pass_remaining_nonneg)
  have st: "penalty_status_text row =
      (if remaining row > 0 then (if date_gt today cutoff then Penalty_Amount (remaining row * 0.15)
         else Penalty_Pending) else Penalty_None)"
    unfolding row_def cutoff_def by (simp add: pass_status Let_def)
  have "(remaining row = 0 \<longrightarrow> penalty_status_text row = Penalty_None) \<and>
       (remaining row \<noteq> 0 \<and> date_le today cutoff \<longrightarrow>
          penalty_status_text row = Penalty_Pending) \<and>
       (remaining row \<noteq> 0 \<and> \<not> date_le today cutoff \<longrightarrow>
          penalty_status_text row = Penalty_Amount (remaining row * 0.15)) \<and>
       (remaining row \<noteq> 0 \<and> today = cutoff \<longrightarrow> penalty_status_text row = Penalty_Pending) \<and>
       (\<forall>a. penalty_status_text row = Penalty_Amount a \<longrightarrow> date_lt cutoff today)"
    using nonneg by (auto simp: st date_gt_iff_not_le date_le_refl date_gt_def[symmetric] split: if_splits)
  then show ?thesis
    by (simp add: nth Let_def cutoff_def)
qed

theorem C1_penalty_rule_witness:
  "(0::nat) < 4 \<and>
   remaining (summary_data (display_customer_summary ''A'' [''A'' \<mapsto> 400000] []
       \<lparr>year = 2026, month = 3, day = 4\<rparr>) ! 0) = 100000 \<and>
   \<not> date_le \<lparr>year = 2026, month = 3, day = 4\<rparr> \<lparr>year = 2026, month = 3, day = 3\<rparr> \<and>
   penalty_status_text (summary_data (display_customer_summary ''A'' [''A'' \<mapsto> 400000] []
       \<lparr>year = 2026, month = 3, day = 4\<rparr>) ! 0) = Penalty_Amount 15000"
proof -
  have r: "remaining (summary_data (display_customer_summary ''A'' [''A'' \<mapsto> 400000] []
       \<lparr>year = 2026, month = 3, day = 4\<rparr>) ! 0) = 100000"
    by (simp add: eval_defs)
  have d: "\<not> date_le \<lparr>year = 2026, month = 3, day = 4\<rparr> \<lparr>year = 2026, month = 3, day = 3\<rparr>"
    by (simp add: date_le_def)
  show ?thesis
    using C1_penalty_rule [of 0 "''A''" "[''A'' \<mapsto> 400000]" "[]" "\<lparr>year = 2026, month = 3, day = 4\<rparr>"] r d
    by (simp add: Let_def start_contract_fiscal_year_def)
qed

section \<open>The yearly obligation\<close>

text \<open>
  Claim C4, as amended. For a customer whose total due (0 when the registry has no entry
  for the name) is not negative, the four rows hold
  one and the same required amount, the float quotient of the total due by 4 (0 when the
  total due is 0). When the total due is a float, or an int of at most \<open>2 ^ 53\<close>, the
  required amount is a quarter of it and the four add up to the total due within
  \<open>1e-9\<close> (exactly, but for a float \<open>m * 2 ^ e\<close> with \<open>e < - 1072\<close>, where the quotient
  is rounded). For a larger int the four add up
  to the total due rounded to 53 significant bits, which need not be the total due; and
  for an int of \<open>2 ^ 1025\<close> or more the division may raise \<^verbatim>\<open>OverflowError\<close>.
\<close>

theorem C4_required_quarter:
  "py_well_formed total_debt \<Longrightarrow> 0 \<le> py_value total_debt \<Longrightarrow>
   (case customer_amounts customer_name of None \<Rightarrow> Py_int 0 | Some a \<Rightarrow> a) = total_debt \<Longrightarrow>
   (case summary_data_py customer_name customer_amounts payments_df today of
      Inl err \<Rightarrow> (case total_debt of Py_int n \<Rightarrow> 2 ^ 1025 \<le> n | Py_float m e \<Rightarrow> False)
    | Inr rows \<Rightarrow>
        length rows = 4 \<and>
        (\<forall>i<4. required (rows ! i) = required (rows ! 0)) \<and>
        (py_value total_debt = 0 \<longrightarrow> (\<forall>i<4. required (rows ! i) = 0)) \<and>
        (case total_debt of
           Py_float m e \<Rightarrow>
             (- 1072 \<le> e \<longrightarrow>
                (\<forall>i<4. required (rows ! i) = py_value total_debt / 4) \<and>
                sum_list (map required rows) = py_value total_debt) \<and>
             \<bar>sum_list (map required rows) - py_value total_debt\<bar> \<le> 1 / 10 ^ 9
         | Py_int n \<Rightarrow>
             (\<forall>i<4. required (rows ! i) = real_of_int (round_to_53_bits n) / 4) \<and>
             sum_list (map required rows) = real_of_int (round_to_53_bits n) \<and>
             (n \<le> 2 ^ 53 \<longrightarrow>
                (\<forall>i<4. required (rows ! i) = py_value total_debt / 4) \<and>
                sum_list (map required rows) = py_value total_debt \<and>
                \<bar>sum_list (map required rows) - py_value total_debt\<bar> \<le> 1 / 10 ^ 9)))"
proof -
  assume wf: "py_well_formed total_debt" and nonneg: "0 \<le> py_value total_debt"
    and reg: "(case customer_amounts customer_name of None \<Rightarrow> Py_int 0 | Some a \<Rightarrow> a) = total_debt"
  show ?thesis
  proof (cases "required_yearly total_debt")
    case (Inl err)
    then have "summary_data_py customer_name customer_amounts payments_df today = Inl err"
      by (simp add: summary_data_py_def reg)
    then show ?thesis
      using required_yearly_error [OF nonneg Inl] by simp
  next
    case (Inr r)
    define rows where
      "rows = fst (summary_loop (py_value r) customer_name payments_df today [0 ..< 4] ([], []))"
    have res: "summary_data_py customer_name customer_amounts payments_df today = Inr rows"
      by (simp add: summary_data_py_def reg Inr rows_def)
    have len: "length rows = 4"
      and req: "\<forall>i<4. required (rows ! i) = py_value r"
      and sum: "sum_list (map required rows) = 4 * py_value r"
      using summary_loop_required [of "py_value r" customer_name payments_df today]
      by (simp_all add: rows_def)
    note v = required_yearly_value [OF wf nonneg Inr]
    have main: "(case total_debt of
           Py_float m e \<Rightarrow>
             (- 1072 \<le> e \<longrightarrow>
                (\<forall>i<4. required (rows ! i) = py_value total_debt / 4) \<and>
                sum_list (map required rows) = py_value total_debt) \<and>
             \<bar>sum_list (map required rows) - py_value total_debt\<bar> \<le> 1 / 10 ^ 9
         | Py_int n \<Rightarrow>
             (\<forall>i<4. required (rows ! i) = real_of_int (round_to_53_bits n) / 4) \<and>
             sum_list (map required rows) = real_of_int (round_to_53_bits n) \<and>
             (n \<le> 2 ^ 53 \<longrightarrow>
                (\<forall>i<4. required (rows ! i) = py_value total_debt / 4) \<and>
                sum_list (map required rows) = py_value total_debt \<and>
                \<bar>sum_list (map required rows) - py_value total_debt\<bar> \<le> 1 / 10 ^ 9))"
    proof (cases total_debt)
      case (Py_int n)
      from nonneg Py_int have n: "0 \<le> n"
        by simp
      from v Py_int have r: "py_value r = real_of_int (round_to_53_bits n) / 4"
        by simp
      have small: "round_to_53_bits n = n" if "n \<le> 2 ^ 53"
        using n that by (rule round_to_53_bits_small)
      have i1: "\<forall>i<4. required (rows ! i) = real_of_int (round_to_53_bits n) / 4"
        using req by (simp add: r)
      have i2: "sum_list (map required rows) = real_of_int (round_to_53_bits n)"
        by (simp add: sum r)
      have i3: "(\<forall>i<4. required (rows ! i) = py_value total_debt / 4) \<and>
          sum_list (map required rows) = py_value total_debt \<and>
          \<bar>sum_list (map required rows) - py_value total_debt\<bar> \<le> 1 / 10 ^ 9" if "n \<le> 2 ^ 53"
        using i1 i2 small [OF that] by (simp add: Py_int)
      from i1 i2 i3 show ?thesis
        unfolding Py_int py_number.case by blast
    next
      case (Py_float m e)
      from v Py_float have exact: "- 1072 \<le> e \<longrightarrow> py_value r = py_value total_debt / 4"
        and near: "\<bar>4 * py_value r - py_value total_debt\<bar> \<le> 1 / 10 ^ 9"
        by simp_all
      have e1: "\<forall>i<4. required (rows ! i) = py_value total_debt / 4" if "- 1072 \<le> e"
        using req exact that by simp
      have e2: "sum_list (map required rows) = py_value total_debt" if "- 1072 \<le> e"
        using exact that by (simp add: sum)
      have e3: "\<bar>sum_list (map required rows) - py_value total_debt\<bar> \<le> 1 / 10 ^ 9"
        using near by (simp only: sum)
      from e1 e2 e3 show ?thesis
        unfolding Py_float py_number.case by blast
    qed
    have zero: "py_value total_debt = 0 \<longrightarrow> (\<forall>i<4. required (rows ! i) = 0)"
      using v req by simp
    have same: "\<forall>i<4. required (rows ! i) = required (rows ! 0)"
      using req by simp
    from len same zero main show ?thesis
      unfolding res sum.case by blast
  qed
qed

theorem C4_required_quarter_witness:
  "py_well_formed (Py_int 400000) \<and> 0 \<le> py_value (Py_int 400000) \<and>
   (case [''A'' \<mapsto> Py_int 400000] ''A'' of None \<Rightarrow> Py_int 0 | Some a \<Rightarrow> a) = Py_int 400000 \<and>
   (400000::int) \<le> 2 ^ 53 \<and>
   (case summary_data_py ''A'' [''A'' \<mapsto> Py_int 400000] [] \<lparr>year = 2025, month = 4, day = 10\<rparr> of
      Inl err \<Rightarrow> False
    | Inr rows \<Rightarrow>
        length rows = 4 \<and> required (rows ! 0) = 100000 \<and> required (rows ! 3) = 100000 \<and>
        sum_list (map required rows) = 400000)"
proof -
  have wf: "py_well_formed (Py_int 400000)"
    by simp
  have nonneg: "0 \<le> py_value (Py_int 400000)"
    by simp
  have reg: "(case [''A'' \<mapsto> Py_int 400000] ''A'' of None \<Rightarrow> Py_int 0 | Some a \<Rightarrow> a) =
      Py_int 400000"
    by simp
  have small: "(400000::int) \<le> 2 ^ 53"
    by simp
  have r: "required_yearly (Py_int 400000) = Inr (Py_float 400000 (- 2))"
    by (simp add: required_yearly_def int_truediv_4_def bit_length.simps Let_def)
  define R where "R = fst (summary_loop (py_value (Py_float 400000 (- 2))) ''A'' []
        \<lparr>year = 2025, month = 4, day = 10\<rparr> [0 ..< 4] ([], []))"
  have res: "summary_data_py ''A'' [''A'' \<mapsto> Py_int 400000] [] \<lparr>year = 2025, month = 4, day = 10\<rparr> =
      Inr R"
    by (simp add: summary_data_py_def r R_def)
  note c4 = C4_required_quarter [where total_debt = "Py_int 400000"
        and customer_amounts = "[''A'' \<mapsto> Py_int 400000]" and customer_name = "''A''"
        and payments_df = "[]" and today = "\<lparr>year = 2025, month = 4, day = 10\<rparr>",
        OF wf nonneg reg, unfolded res sum.case py_number.case]
  from c4 have len: "length R = 4"
    by blast
  from c4 small have q: "\<forall>i<4. required (R ! i) = py_value (Py_int 400000) / 4"
    and s: "sum_list (map required R) = py_value (Py_int 400000)"
    by blast+
  from q have q0: "required (R ! 0) = 100000" and q3: "required (R ! 3) = 100000"
    by simp_all
  from s have s': "sum_list (map required R) = 400000"
    by simp
  show ?thesis
    unfolding res sum.case using wf nonneg reg small len q0 q3 s' by blast
qed

text \<open>
  The claim as it was stated fails for a total due that no float holds. For the int
  \<open>2 ^ 53 + 1\<close> each row requires \<open>2 ^ 51\<close>, which is not a quarter of it, and the four
  add up to \<open>2 ^ 53\<close>, which misses the total due by 1.
\<close>

theorem C4_counterexample:
  "0 \<le> py_value (Py_int 9007199254740993) \<and>
   (case summary_data_py ''A'' [''A'' \<mapsto> Py_int 9007199254740993] []
           \<lparr>year = 2025, month = 4, day = 10\<rparr> of
      Inl err \<Rightarrow> False
    | Inr rows \<Rightarrow>
        map required rows =
          [2251799813685248, 2251799813685248, 2251799813685248, 2251799813685248] \<and>
        sum_list (map required rows) = 9007199254740992 \<and>
        \<bar>sum_list (map required rows) - py_value (Py_int 9007199254740993)\<bar> = 1) \<and>
   \<not> (1::real) \<le> 1 / 10 ^ 9"
proof -
  have r: "required_yearly (Py_int 9007199254740993) = Inr (Py_float 4503599627370496 (- 1))"
    by (simp add: required_yearly_def int_truediv_4_def bit_length.simps round_half_even_def Let_def)
  define R where "R = fst (summary_loop 2251799813685248 ''A'' []
        \<lparr>year = 2025, month = 4, day = 10\<rparr> [0 ..< 4] ([], []))"
  have "map required R = map (\<lambda>i. 2251799813685248) [0 ..< 4]"
    by (simp add: R_def summary_loop_rows pass_required comp_def)
  also have "\<dots> = [2251799813685248, 2251799813685248, 2251799813685248, 2251799813685248]"
    by (simp add: upt_rec)
  finally have rows: "map required R =
      [2251799813685248, 2251799813685248, 2251799813685248, 2251799813685248]" .
  have res: "summary_data_py ''A'' [''A'' \<mapsto> Py_int 9007199254740993] []
        \<lparr>year = 2025, month = 4, day = 10\<rparr> = Inr R"
    by (simp add: summary_data_py_def r R_def pow2_def)
  show ?thesis
    unfolding res sum.case rows by simp
qed

section \<open>Lifetime totals\<close>



section \<open>Payments without a date\<close>

text \<open>
  Claim C5. A payment of the customer whose date is missing or unparseable passes the row
  filter of no fiscal year, so the four rows are the ones computed without it; its amount
  is still part of the total paid; and the summary is computed all the same, with its four
  rows.
\<close>

theorem C5_undated_payment:
  "payment_date_dt p = None \<Longrightarrow> customer p = customer_name \<Longrightarrow>
   (let s = display_customer_summary customer_name customer_amounts (ps @ p # qs) today;
        s0 = display_customer_summary customer_name customer_amounts (ps @ qs) today
    in (\<forall>start_date_fiscal end_date_fiscal.
          \<not> in_df_year customer_name start_date_fiscal end_date_fiscal p) \<and>
       length (summary_data s) = 4 \<and>
       (\<forall>i<4. paid (summary_data s ! i) = paid (summary_data s0 ! i)) \<and>
       summary_data s = summary_data s0 \<and>
       total_paid_all_time s = total_paid_all_time s0 + amount p)"
proof -
  assume d: "payment_date_dt p = None" and c: "customer p = customer_name"
  have out: "\<not> in_df_year customer_name a b p" for a b
    using d by (rule in_df_year_None)
  have rows: "summary_data (display_customer_summary customer_name customer_amounts (ps @ p # qs) today) =
      summary_data (display_customer_summary customer_name customer_amounts (ps @ qs) today)"
    unfolding summary_data_eq using pass_drop_unfiltered [of customer_name p, OF out] by simp
  have tot: "total_paid_all_time (display_customer_summary customer_name customer_amounts (ps @ p # qs) today) =
      total_paid_all_time (display_customer_summary customer_name customer_amounts (ps @ qs) today) + amount p"
    using c by (simp add: total_paid_eq)
  show ?thesis
    unfolding Let_def using out rows tot by (simp add: summary_data_length)
qed

theorem C5_undated_payment_witness:
  "payment_date_dt \<lparr>customer = ''A'', payment_date_dt = None, amount = 300, payment_note = []\<rparr> = None \<and>
   customer \<lparr>customer = ''A'', payment_date_dt = None, amount = 300, payment_note = []\<rparr> = ''A'' \<and>
   map paid (summary_data (display_customer_summary ''A'' [''A'' \<mapsto> 400]
       ([] @ \<lparr>customer = ''A'', payment_date_dt = None, amount = 300, payment_note = []\<rparr> # [])
       \<lparr>year = 2025, month = 7, day = 1\<rparr>)) = [0, 0, 0, 0] \<and>
   total_paid_all_time (display_customer_summary ''A'' [''A'' \<mapsto> 400]
       ([] @ \<lparr>customer = ''A'', payment_date_dt = None, amount = 300, payment_note = []\<rparr> # [])
       \<lparr>year = 2025, month = 7, day = 1\<rparr>) = 300"
proof -
  have e: "map paid (summary_data (display_customer_summary ''A'' [''A'' \<mapsto> 400] ([] @ [])
       \<lparr>year = 2025, month = 7, day = 1\<rparr>)) = [0, 0, 0, 0]"
    by (simp add: eval_defs)
  have t: "total_paid_all_time (display_customer_summary ''A'' [''A'' \<mapsto> 400] ([] @ [])
       \<lparr>year = 2025, month = 7, day = 1\<rparr>) = 0"
    by (simp add: total_paid_eq)
  show ?thesis
    using C5_undated_payment [of "\<lparr>customer = ''A'', payment_date_dt = None, amount = 300, payment_note = []\<rparr>"
        "''A''" "[''A'' \<mapsto> 400]" "[]" "[]" "\<lparr>year = 2025, month = 7, day = 1\<rparr>"] e t
    by (simp add: Let_def)
qed

section \<open>The days between two periods\<close>

text \<open>
  Claim C10. A payment of the customer dated strictly between March 5 and April 5 of year
  \<open>Y + 1\<close> passes the row filter of no fiscal year, so none of the four rows counts it,
  although \<open>get_fiscal_year_string\<close> gives its date the label of fiscal year \<open>Y\<close>; its
  amount is still part of the total paid.
\<close>

theorem C10_gap_dates:
  "customer p = customer_name \<Longrightarrow> payment_date_dt p = Some d \<Longrightarrow>
   date_lt \<lparr>year = Y + 1, month = 3, day = 5\<rparr> d \<Longrightarrow>
   date_lt d \<lparr>year = Y + 1, month = 4, day = 5\<rparr> \<Longrightarrow>
   (let s = display_customer_summary customer_name customer_amounts (ps @ p # qs) today;
        s0 = display_customer_summary customer_name customer_amounts (ps @ qs) today
    in (\<forall>a. \<not> in_df_year customer_name \<lparr>year = a, month = 4, day = 5\<rparr>
               \<lparr>year = a + 1, month = 3, day = 5\<rparr> p) \<and>
       (\<forall>i<4. paid (summary_data s ! i) = paid (summary_data s0 ! i)) \<and>
       summary_data s = summary_data s0 \<and>
       get_fiscal_year_string d = str_int Y @ ''-'' @ str_int (Y + 1) \<and>
       total_paid_all_time s = total_paid_all_time s0 + amount p)"
proof -
  assume c: "customer p = customer_name" and d: "payment_date_dt p = Some d"
    and lo: "date_lt \<lparr>year = Y + 1, month = 3, day = 5\<rparr> d"
    and hi: "date_lt d \<lparr>year = Y + 1, month = 4, day = 5\<rparr>"
  have out: "\<not> in_df_year customer_name \<lparr>year = a, month = 4, day = 5\<rparr>
      \<lparr>year = a + 1, month = 3, day = 5\<rparr> p" for a
    using d lo hi by (rule gap_date_not_in_df_year)
  have pass: "fiscal_year_pass rq customer_name (ps @ p # qs) today i =
      fiscal_year_pass rq customer_name (ps @ qs) today i" for rq i
    using out by (rule pass_drop_outside)
  have rows: "summary_data (display_customer_summary customer_name customer_amounts (ps @ p # qs) today) =
      summary_data (display_customer_summary customer_name customer_amounts (ps @ qs) today)"
    unfolding summary_data_eq by (simp add: pass)
  have lab: "get_fiscal_year_string d = str_int Y @ ''-'' @ str_int (Y + 1)"
    using lo hi by (rule gap_date_label)
  have tot: "total_paid_all_time (display_customer_summary customer_name customer_amounts (ps @ p # qs) today) =
      total_paid_all_time (display_customer_summary customer_name customer_amounts (ps @ qs) today) + amount p"
    using c by (simp add: total_paid_eq)
  show ?thesis
    unfolding Let_def using out rows lab tot by simp
qed

theorem C10_gap_dates_witness:
  "customer \<lparr>customer = ''A'', payment_date_dt = Some \<lparr>year = 2026, month = 3, day = 10\<rparr>,
             amount = 100, payment_note = []\<rparr> = ''A'' \<and>
   date_lt \<lparr>year = 2025 + 1, month = 3, day = 5\<rparr> \<lparr>year = 2026, month = 3, day = 10\<rparr> \<and>
   date_lt \<lparr>year = 2026, month = 3, day = 10\<rparr> \<lparr>year = 2025 + 1, month = 4, day = 5\<rparr> \<and>
   map paid (summary_data (display_customer_summary ''A'' [''A'' \<mapsto> 400]
      ([] @ \<lparr>customer = ''A'', payment_date_dt = Some \<lparr>year = 2026, month = 3, day = 10\<rparr>,
             amount = 100, payment_note = []\<rparr> # [])
      \<lparr>year = 2026, month = 5, day = 1\<rparr>)) = [0, 0, 0, 0] \<and>
   get_fiscal_year_string \<lparr>year = 2026, month = 3, day = 10\<rparr> = ''2025-2026'' \<and>
   total_paid_all_time (display_customer_summary ''A'' [''A'' \<mapsto> 400]
      ([] @ \<lparr>customer = ''A'', payment_date_dt = Some \<lparr>year = 2026, month = 3, day = 10\<rparr>,
             amount = 100, payment_note = []\<rparr> # [])
      \<lparr>year = 2026, month = 5, day = 1\<rparr>) = 100"
proof -
  have lo: "date_lt \<lparr>year = 2025 + 1, month = 3, day = 5\<rparr> \<lparr>year = 2026, month = 3, day = 10\<rparr>"
    by (simp add: date_lt_def)
  have hi: "date_lt \<lparr>year = 2026, month = 3, day = 10\<rparr> \<lparr>year = 2025 + 1, month = 4, day = 5\<rparr>"
    by (simp add: date_lt_def)
  have e: "map paid (summary_data (display_customer_summary ''A'' [''A'' \<mapsto> 400] ([] @ [])
       \<lparr>year = 2026, month = 5, day = 1\<rparr>)) = [0, 0, 0, 0]"
    by (simp add: eval_defs)
  have t: "total_paid_all_time (display_customer_summary ''A'' [''A'' \<mapsto> 400] ([] @ [])
       \<lparr>year = 2026, month = 5, day = 1\<rparr>) = 0"
    by (simp add: total_paid_eq)
  have l: "str_int 2025 @ ''-'' @ str_int (2025 + 1) = ''2025-2026''"
    by (simp add: str_int_def str_nat.simps digit_char_def)
  show ?thesis
    using C10_gap_dates [of "\<lparr>customer = ''A'', payment_date_dt = Some \<lparr>year = 2026, month = 3, day = 10\<rparr>,
             amount = 100, payment_note = []\<rparr>" "''A''" "\<lparr>year = 2026, month = 3, day = 10\<rparr>" 2025
        "[''A'' \<mapsto> 400]" "[]" "[]" "\<lparr>year = 2026, month = 5, day = 1\<rparr>", OF _ _ lo hi] lo hi e t l
    by (simp add: Let_def)
qed

section \<open>Period boundaries\<close>

text \<open>
  Claim C2, as amended. For a payment of the customer and a fiscal year \<open>Y\<close> of the
  schedule: dated April 5 of \<open>Y\<close> or March 5 of \<open>Y + 1\<close>, it is counted in the paid
  amount of fiscal year \<open>Y\<close> (the bounds are inclusive); dated April 4 of \<open>Y\<close> or March 6
  of \<open>Y + 1\<close>, it passes the row filter of no fiscal year and is counted in none of the
  four paid amounts, neither the previous year's nor the next one's. The label function
  gives April 4 of \<open>Y\<close> the label of fiscal year \<open>Y - 1\<close> and March 6 of \<open>Y + 1\<close> the
  label of fiscal year \<open>Y\<close>, not of the next one.
\<close>

theorem C2_period_boundaries:
  "i < 4 \<Longrightarrow> customer p = customer_name \<Longrightarrow>
   (let Y = start_contract_fiscal_year + int i;
        s = display_customer_summary customer_name customer_amounts (ps @ p # qs) today;
        s0 = display_customer_summary customer_name customer_amounts (ps @ qs) today
    in (payment_date_dt p = Some \<lparr>year = Y, month = 4, day = 5\<rparr> \<or>
        payment_date_dt p = Some \<lparr>year = Y + 1, month = 3, day = 5\<rparr> \<longrightarrow>
          paid (summary_data s ! i) = paid (summary_data s0 ! i) + amount p) \<and>
       (payment_date_dt p = Some \<lparr>year = Y, month = 4, day = 4\<rparr> \<or>
        payment_date_dt p = Some \<lparr>year = Y + 1, month = 3, day = 6\<rparr> \<longrightarrow>
          (\<forall>a. \<not> in_df_year customer_name \<lparr>year = a, month = 4, day = 5\<rparr>
                  \<lparr>year = a + 1, month = 3, day = 5\<rparr> p) \<and>
          (\<forall>j<4. paid (summary_data s ! j) = paid (summary_data s0 ! j))) \<and>
       get_fiscal_year_string \<lparr>year = Y, month = 4, day = 5\<rparr> = str_int Y @ ''-'' @ str_int (Y + 1) \<and>
       get_fiscal_year_string \<lparr>year = Y + 1, month = 3, day = 5\<rparr> = str_int Y @ ''-'' @ str_int (Y + 1) \<and>
       get_fiscal_year_string \<lparr>year = Y, month = 4, day = 4\<rparr> = str_int (Y - 1) @ ''-'' @ str_int Y \<and>
       get_fiscal_year_string \<lparr>year = Y + 1, month = 3, day = 6\<rparr> = str_int Y @ ''-'' @ str_int (Y + 1))"
proof -
  assume i: "i < 4" and c: "customer p = customer_name"
  define Y where "Y = start_contract_fiscal_year + int i"
  define s where "s = display_customer_summary customer_name customer_amounts (ps @ p # qs) today"
  define s0 where "s0 = display_customer_summary customer_name customer_amounts (ps @ qs) today"
  have paid_i: "paid (summary_data s ! i) = paid (summary_data s0 ! i) +
      (if in_df_year customer_name \<lparr>year = Y, month = 4, day = 5\<rparr>
          \<lparr>year = Y + 1, month = 3, day = 5\<rparr> p then amount p else 0)"
    using i by (simp add: s_def s0_def summary_data_nth pass_paid_insert Y_def)
  have inside: "paid (summary_data s ! i) = paid (summary_data s0 ! i) + amount p"
    if "payment_date_dt p = Some \<lparr>year = Y, month = 4, day = 5\<rparr> \<or>
        payment_date_dt p = Some \<lparr>year = Y + 1, month = 3, day = 5\<rparr>"
  proof -
    from that c have "in_df_year customer_name \<lparr>year = Y, month = 4, day = 5\<rparr>
          \<lparr>year = Y + 1, month = 3, day = 5\<rparr> p"
      by (auto simp: in_df_year_def date_ge_def date_le_def)
    with paid_i show ?thesis by simp
  qed
  have outside: "(\<forall>a. \<not> in_df_year customer_name \<lparr>year = a, month = 4, day = 5\<rparr>
                  \<lparr>year = a + 1, month = 3, day = 5\<rparr> p) \<and>
          (\<forall>j<4. paid (summary_data s ! j) = paid (summary_data s0 ! j))"
    if h: "payment_date_dt p = Some \<lparr>year = Y, month = 4, day = 4\<rparr> \<or>
        payment_date_dt p = Some \<lparr>year = Y + 1, month = 3, day = 6\<rparr>"
  proof -
    have out: "\<not> in_df_year customer_name \<lparr>year = a, month = 4, day = 5\<rparr>
                  \<lparr>year = a + 1, month = 3, day = 5\<rparr> p" for a
      using h by (auto simp: in_df_year_def date_ge_def date_le_def)
    have "fiscal_year_pass rq customer_name (ps @ p # qs) today j =
        fiscal_year_pass rq customer_name (ps @ qs) today j" for rq j
      using out by (rule pass_drop_outside)
    then have "summary_data s = summary_data s0"
      by (simp add: s_def s0_def summary_data_eq)
    with out show ?thesis by simp
  qed
  have labels:
    "get_fiscal_year_string \<lparr>year = Y, month = 4, day = 5\<rparr> = str_int Y @ ''-'' @ str_int (Y + 1)"
    "get_fiscal_year_string \<lparr>year = Y + 1, month = 3, day = 5\<rparr> = str_int Y @ ''-'' @ str_int (Y + 1)"
    "get_fiscal_year_string \<lparr>year = Y, month = 4, day = 4\<rparr> = str_int (Y - 1) @ ''-'' @ str_int Y"
    "get_fiscal_year_string \<lparr>year = Y + 1, month = 3, day = 6\<rparr> = str_int Y @ ''-'' @ str_int (Y + 1)"
    by (simp_all add: get_fiscal_year_string_eq)
  show ?thesis
    unfolding Let_def Y_def [symmetric] s_def [symmetric] s0_def [symmetric]
    using inside outside labels by blast
qed

theorem C2_period_boundaries_witness:
  "(0::nat) < 4 \<and>
   paid (summary_data (display_customer_summary ''A'' [''A'' \<mapsto> 400]
      ([] @ \<lparr>customer = ''A'', payment_date_dt = Some \<lparr>year = 2025, month = 4, day = 5\<rparr>,
             amount = 100, payment_note = []\<rparr> # [])
      \<lparr>year = 2026, month = 5, day = 1\<rparr>) ! 0) = 100 \<and>
   paid (summary_data (display_customer_summary ''A'' [''A'' \<mapsto> 400]
      ([] @ \<lparr>customer = ''A'', payment_date_dt = Some \<lparr>year = 2026, month = 3, day = 6\<rparr>,
             amount = 100, payment_note = []\<rparr> # [])
      \<lparr>year = 2026, month = 5, day = 1\<rparr>) ! 1) = 0"
proof -
  have e: "map paid (summary_data (display_customer_summary ''A'' [''A'' \<mapsto> 400] ([] @ [])
       \<lparr>year = 2026, month = 5, day = 1\<rparr>)) = [0, 0, 0, 0]"
    by (simp add: eval_defs)
  then have e0: "paid (summary_data (display_customer_summary ''A'' [''A'' \<mapsto> 400] ([] @ [])
       \<lparr>year = 2026, month = 5, day = 1\<rparr>) ! 0) = 0"
    and e1: "paid (summary_data (display_customer_summary ''A'' [''A'' \<mapsto> 400] ([] @ [])
       \<lparr>year = 2026, month = 5, day = 1\<rparr>) ! 1) = 0"
    by (simp_all add: summary_data_eq upt_rec)
  have a: "paid (summary_data (display_customer_summary ''A'' [''A'' \<mapsto> 400]
      ([] @ \<lparr>customer = ''A'', payment_date_dt = Some \<lparr>year = 2025, month = 4, day = 5\<rparr>,
             amount = 100, payment_note = []\<rparr> # [])
      \<lparr>year = 2026, month = 5, day = 1\<rparr>) ! 0) = 100"
    using C2_period_boundaries [of 0 "\<lparr>customer = ''A'', payment_date_dt = Some \<lparr>year = 2025, month = 4, day = 5\<rparr>,
             amount = 100, payment_note = []\<rparr>" "''A''" "[''A'' \<mapsto> 400]" "[]" "[]"
        "\<lparr>year = 2026, month = 5, day = 1\<rparr>"] e0
    by (simp add: Let_def start_contract_fiscal_year_def)
  have b: "paid (summary_data (display_customer_summary ''A'' [''A'' \<mapsto> 400]
      ([] @ \<lparr>customer = ''A'', payment_date_dt = Some \<lparr>year = 2026, month = 3, day = 6\<rparr>,
             amount = 100, payment_note = []\<rparr> # [])
      \<lparr>year = 2026, month = 5, day = 1\<rparr>) ! 1) = 0"
    using C2_period_boundaries [of 0 "\<lparr>customer = ''A'', payment_date_dt = Some \<lparr>year = 2026, month = 3, day = 6\<rparr>,
             amount = 100, payment_note = []\<rparr>" "''A''" "[''A'' \<mapsto> 400]" "[]" "[]"
        "\<lparr>year = 2026, month = 5, day = 1\<rparr>"] e1
    by (simp add: Let_def start_contract_fiscal_year_def)
  show ?thesis using a b by simp
qed

text \<open>
  The claim as it was stated fails: a payment dated April 4, 2026 is not counted in fiscal
  year 2025 (nor in any row), and a payment dated March 6, 2026 is not counted in the next
  period, fiscal year 2026 (nor in any row), nor does its date get that period's label.
\<close>

theorem C2_counterexample:
  "map paid (summary_data (display_customer_summary ''A'' [''A'' \<mapsto> 400]
      [\<lparr>customer = ''A'', payment_date_dt = Some \<lparr>year = 2026, month = 4, day = 4\<rparr>,
        amount = 100, payment_note = []\<rparr>]
      \<lparr>year = 2026, month = 5, day = 1\<rparr>)) = [0, 0, 0, 0] \<and>
   map paid (summary_data (display_customer_summary ''A'' [''A'' \<mapsto> 400]
      [\<lparr>customer = ''A'', payment_date_dt = Some \<lparr>year = 2026, month = 3, day = 6\<rparr>,
        amount = 100, payment_note = []\<rparr>]
      \<lparr>year = 2026, month = 5, day = 1\<rparr>)) = [0, 0, 0, 0] \<and>
   map fiscal_label (summary_data (display_customer_summary ''A'' [''A'' \<mapsto> 400]
      [\<lparr>customer = ''A'', payment_date_dt = Some \<lparr>year = 2026, month = 3, day = 6\<rparr>,
        amount = 100, payment_note = []\<rparr>]
      \<lparr>year = 2026, month = 5, day = 1\<rparr>)) = [''2025-2026'', ''2026-2027'', ''2027-2028'', ''2028-2029''] \<and>
   get_fiscal_year_string \<lparr>year = 2026, month = 3, day = 6\<rparr> = ''2025-2026''"
  by (simp add: eval_defs get_fiscal_year_string_def)

section \<open>The fiscal label of a date\<close>

text \<open>
  Claim C3, as amended. For every valid calendar date \<open>d\<close>, \<open>get_fiscal_year_string\<close>
  returns the label of the year before \<open>d\<close>'s when \<open>d\<close> is in a month before April or on
  April 1 to 4, and the label of \<open>d\<close>'s own year otherwise; the label names exactly one
  fiscal start year. For every date that lies inside a fiscal period, from April 5 of a
  year \<open>Y\<close> to March 5 of \<open>Y + 1\<close>, both included, the label is that period's, so for such a
  date the row that counts a payment and the row that the receipt looks up are the same.
\<close>

theorem C3_fiscal_label:
  "valid_date d \<Longrightarrow>
   (let fiscal_year_start =
          (if month d < 4 \<or> (month d = 4 \<and> day d < 5) then year d - 1 else year d);
        rows = summary_data (display_customer_summary customer_name customer_amounts payments_df today)
    in get_fiscal_year_string d =
         (if month d < 4 \<or> (month d = 4 \<and> day d < 5)
          then str_int (year d - 1) @ ''-'' @ str_int (year d)
          else str_int (year d) @ ''-'' @ str_int (year d + 1)) \<and>
       (\<forall>Y. 0 \<le> Y \<longrightarrow>
          (get_fiscal_year_string d = str_int Y @ ''-'' @ str_int (Y + 1)) = (Y = fiscal_year_start)) \<and>
       (\<forall>Y. date_ge d \<lparr>year = Y, month = 4, day = 5\<rparr> \<and>
            date_le d \<lparr>year = Y + 1, month = 3, day = 5\<rparr> \<longrightarrow>
          Y = fiscal_year_start \<and>
          get_fiscal_year_string d = str_int Y @ ''-'' @ str_int (Y + 1)) \<and>
       (\<forall>i<4. date_ge d \<lparr>year = start_contract_fiscal_year + int i, month = 4, day = 5\<rparr> \<and>
              date_le d \<lparr>year = start_contract_fiscal_year + int i + 1, month = 3, day = 5\<rparr> \<longrightarrow>
          find_year_data (get_fiscal_year_string d) rows = Some (rows ! i)))"
proof -
  assume v: "valid_date d"
  define fiscal_year_start where "fiscal_year_start =
     (if month d < 4 \<or> (month d = 4 \<and> day d < 5) then year d - 1 else year d)"
  define rows where
    "rows = summary_data (display_customer_summary customer_name customer_amounts payments_df today)"
  have lab: "get_fiscal_year_string d =
      str_int fiscal_year_start @ ''-'' @ str_int (fiscal_year_start + 1)"
    by (simp add: get_fiscal_year_string_eq fiscal_year_start_def)
  from v have nonneg: "0 \<le> fiscal_year_start"
    by (simp add: valid_date_def fiscal_year_start_def)
  have one: "(get_fiscal_year_string d = str_int Y @ ''-'' @ str_int (Y + 1)) = (Y = fiscal_year_start)"
    if "0 \<le> Y" for Y
    using that nonneg fiscal_label_inj [of Y fiscal_year_start] by (auto simp: lab)
  have period: "Y = fiscal_year_start \<and>
      get_fiscal_year_string d = str_int Y @ ''-'' @ str_int (Y + 1)"
    if "date_ge d \<lparr>year = Y, month = 4, day = 5\<rparr> \<and> date_le d \<lparr>year = Y + 1, month = 3, day = 5\<rparr>"
    for Y
  proof -
    from that have "Y = fiscal_year_start"
      by (auto simp: fiscal_year_start_def date_ge_def date_le_def)
    then show ?thesis
      by (simp add: lab)
  qed
  have same: "find_year_data (get_fiscal_year_string d) rows = Some (rows ! i)"
    if i: "i < 4"
      and "date_ge d \<lparr>year = start_contract_fiscal_year + int i, month = 4, day = 5\<rparr> \<and>
           date_le d \<lparr>year = start_contract_fiscal_year + int i + 1, month = 3, day = 5\<rparr>"
    for i
  proof -
    from that(2) have "get_fiscal_year_string d =
        str_int (start_contract_fiscal_year + int i) @ ''-'' @
        str_int (start_contract_fiscal_year + int i + 1)"
      using period by blast
    then show ?thesis
      unfolding rows_def using find_year_data_schedule [OF i] by simp
  qed
  show ?thesis
    unfolding Let_def rows_def [symmetric] fiscal_year_start_def [symmetric]
    using one period same by (simp add: get_fiscal_year_string_eq)
qed

theorem C3_fiscal_label_witness:
  "valid_date \<lparr>year = 2027, month = 3, day = 5\<rparr> \<and>
   get_fiscal_year_string \<lparr>year = 2027, month = 3, day = 5\<rparr> = ''2026-2027'' \<and>
   (1::nat) < 4 \<and>
   date_ge \<lparr>year = 2027, month = 3, day = 5\<rparr> \<lparr>year = 2025 + int 1, month = 4, day = 5\<rparr> \<and>
   date_le \<lparr>year = 2027, month = 3, day = 5\<rparr> \<lparr>year = 2025 + int 1 + 1, month = 3, day = 5\<rparr> \<and>
   find_year_data (get_fiscal_year_string \<lparr>year = 2027, month = 3, day = 5\<rparr>)
     (summary_data (display_customer_summary ''A'' [''A'' \<mapsto> 400] []
        \<lparr>year = 2026, month = 6, day = 1\<rparr>)) =
   Some (summary_data (display_customer_summary ''A'' [''A'' \<mapsto> 400] []
        \<lparr>year = 2026, month = 6, day = 1\<rparr>) ! 1)"
proof -
  have v: "valid_date \<lparr>year = 2027, month = 3, day = 5\<rparr>"
    by (simp add: valid_date_def days_in_month_def)
  have ge: "date_ge \<lparr>year = 2027, month = 3, day = 5\<rparr> \<lparr>year = 2025 + int 1, month = 4, day = 5\<rparr>"
    by (simp add: date_ge_def date_le_def)
  have le: "date_le \<lparr>year = 2027, month = 3, day = 5\<rparr> \<lparr>year = 2025 + int 1 + 1, month = 3, day = 5\<rparr>"
    by (simp add: date_le_def)
  have lt: "(1::nat) < 4"
    by simp
  have l: "str_int 2026 @ ''-'' @ str_int 2027 = ''2026-2027''"
    by (simp add: str_int_def str_nat.simps digit_char_def)
  have a: "get_fiscal_year_string \<lparr>year = 2027, month = 3, day = 5\<rparr> = ''2026-2027''"
    using C3_fiscal_label [OF v, of "''A''" "[''A'' \<mapsto> 400]" "[]" "\<lparr>year = 2026, month = 6, day = 1\<rparr>"] l
    by (simp add: Let_def)
  have b: "find_year_data (get_fiscal_year_string \<lparr>year = 2027, month = 3, day = 5\<rparr>)
     (summary_data (display_customer_summary ''A'' [''A'' \<mapsto> 400] []
        \<lparr>year = 2026, month = 6, day = 1\<rparr>)) =
   Some (summary_data (display_customer_summary ''A'' [''A'' \<mapsto> 400] []
        \<lparr>year = 2026, month = 6, day = 1\<rparr>) ! 1)"
    using C3_fiscal_label [OF v, of "''A''" "[''A'' \<mapsto> 400]" "[]" "\<lparr>year = 2026, month = 6, day = 1\<rparr>"] ge le lt
    unfolding Let_def start_contract_fiscal_year_def by blast
  show ?thesis
    using v a ge le b by simp
qed

text \<open>
  The claim as it was stated fails on the days between two periods. A payment of 100 dated
  March 10, 2026 gets the label of fiscal year 2025 and the receipt features that row, but the
  payment passes the filter of no row and the row shows nothing paid.
\<close>

theorem C3_counterexample:
  "valid_date \<lparr>year = 2026, month = 3, day = 10\<rparr> \<and>
   get_fiscal_year_string \<lparr>year = 2026, month = 3, day = 10\<rparr> = ''2025-2026'' \<and>
   receipt_fiscal_year_section \<lparr>year = 2026, month = 3, day = 10\<rparr>
     (summary_data (display_customer_summary ''A'' [''A'' \<mapsto> 400]
        [\<lparr>customer = ''A'', payment_date_dt = Some \<lparr>year = 2026, month = 3, day = 10\<rparr>,
          amount = 100, payment_note = []\<rparr>]
        \<lparr>year = 2026, month = 5, day = 1\<rparr>)) =
     Fiscal_Year_Info ''2025-2026'' 100 0 100 (Penalty_Amount 15) \<and>
   \<not> in_df_year ''A'' \<lparr>year = 2025, month = 4, day = 5\<rparr> \<lparr>year = 2026, month = 3, day = 5\<rparr>
     \<lparr>customer = ''A'', payment_date_dt = Some \<lparr>year = 2026, month = 3, day = 10\<rparr>,
      amount = 100, payment_note = []\<rparr> \<and>
   map paid (summary_data (display_customer_summary ''A'' [''A'' \<mapsto> 400]
        [\<lparr>customer = ''A'', payment_date_dt = Some \<lparr>year = 2026, month = 3, day = 10\<rparr>,
          amount = 100, payment_note = []\<rparr>]
        \<lparr>year = 2026, month = 5, day = 1\<rparr>)) = [0, 0, 0, 0]"
  by (simp add: eval_defs valid_date_def days_in_month_def get_fiscal_year_string_def
      receipt_fiscal_year_section_def)

section \<open>The receipt's fiscal year\<close>

text \<open>
  Claim C7. The row that the receipt features is the first row of the summary it is given
  whose label is the one \<open>get_fiscal_year_string\<close> computes from the payment date, and
  when no row carries that label the receipt prints the "not found" line instead of a row.
  On the summary of \<open>display_customer_summary\<close>: when the fiscal year of the payment date
  is the year of row \<open>i\<close>, the receipt features row \<open>i\<close>; when it lies outside the four
  contract years, the receipt prints the "not found" line.
\<close>

theorem C7_receipt_lookup:
  "valid_date payment_date \<Longrightarrow>
   (let rows = summary_data (display_customer_summary customer_name customer_amounts payments_df today);
        fiscal_year_start =
          (if month payment_date < 4 \<or> (month payment_date = 4 \<and> day payment_date < 5)
           then year payment_date - 1 else year payment_date)
    in (\<forall>i<4. fiscal_year_start = start_contract_fiscal_year + int i \<longrightarrow>
          fiscal_label (rows ! i) = get_fiscal_year_string payment_date \<and>
          receipt_fiscal_year_section payment_date rows =
            Fiscal_Year_Info (fiscal_label (rows ! i)) (required (rows ! i)) (paid (rows ! i))
              (remaining (rows ! i)) (penalty_status_text (rows ! i))) \<and>
       (fiscal_year_start < start_contract_fiscal_year \<or>
        start_contract_fiscal_year + 4 \<le> fiscal_year_start \<longrightarrow>
          receipt_fiscal_year_section payment_date rows = Fiscal_Year_Not_Found)) \<and>
   (\<forall>yearly_summary_for_pdf.
      (case find_year_data (get_fiscal_year_string payment_date) yearly_summary_for_pdf of
         Some info \<Rightarrow>
           info \<in> set yearly_summary_for_pdf \<and>
           fiscal_label info = get_fiscal_year_string payment_date \<and>
           receipt_fiscal_year_section payment_date yearly_summary_for_pdf =
             Fiscal_Year_Info (fiscal_label info) (required info) (paid info) (remaining info)
               (penalty_status_text info)
       | None \<Rightarrow>
           (\<forall>r\<in>set yearly_summary_for_pdf. fiscal_label r \<noteq> get_fiscal_year_string payment_date) \<and>
           receipt_fiscal_year_section payment_date yearly_summary_for_pdf = Fiscal_Year_Not_Found))"
proof -
  assume v: "valid_date payment_date"
  define rows where
    "rows = summary_data (display_customer_summary customer_name customer_amounts payments_df today)"
  define fiscal_year_start where "fiscal_year_start =
     (if month payment_date < 4 \<or> (month payment_date = 4 \<and> day payment_date < 5)
      then year payment_date - 1 else year payment_date)"
  have lab: "get_fiscal_year_string payment_date =
      str_int fiscal_year_start @ ''-'' @ str_int (fiscal_year_start + 1)"
    by (simp add: get_fiscal_year_string_eq fiscal_year_start_def)
  from v have nonneg: "0 \<le> fiscal_year_start"
    by (simp add: valid_date_def fiscal_year_start_def)
  have found: "fiscal_label (rows ! i) = get_fiscal_year_string payment_date \<and>
      receipt_fiscal_year_section payment_date rows =
        Fiscal_Year_Info (fiscal_label (rows ! i)) (required (rows ! i)) (paid (rows ! i))
          (remaining (rows ! i)) (penalty_status_text (rows ! i))"
    if i: "i < 4" and e: "fiscal_year_start = start_contract_fiscal_year + int i" for i
  proof -
    have "find_year_data (get_fiscal_year_string payment_date) rows = Some (rows ! i)"
      unfolding lab e rows_def using i by (rule find_year_data_schedule)
    moreover have "fiscal_label (rows ! i) = get_fiscal_year_string payment_date"
      using i by (simp add: rows_def summary_data_nth pass_label lab e)
    ultimately show ?thesis
      by (simp add: receipt_fiscal_year_section_def Let_def)
  qed
  have missing: "receipt_fiscal_year_section payment_date rows = Fiscal_Year_Not_Found"
    if "fiscal_year_start < start_contract_fiscal_year \<or>
        start_contract_fiscal_year + 4 \<le> fiscal_year_start"
  proof -
    have "find_year_data (get_fiscal_year_string payment_date) rows = None"
      unfolding lab rows_def using nonneg that by (rule find_year_data_schedule_None)
    then show ?thesis
      by (simp add: receipt_fiscal_year_section_def Let_def)
  qed
  have general:
    "(case find_year_data (get_fiscal_year_string payment_date) ys of
         Some info \<Rightarrow>
           info \<in> set ys \<and>
           fiscal_label info = get_fiscal_year_string payment_date \<and>
           receipt_fiscal_year_section payment_date ys =
             Fiscal_Year_Info (fiscal_label info) (required info) (paid info) (remaining info)
               (penalty_status_text info)
       | None \<Rightarrow>
           (\<forall>r\<in>set ys. fiscal_label r \<noteq> get_fiscal_year_string payment_date) \<and>
           receipt_fiscal_year_section payment_date ys = Fiscal_Year_Not_Found)" for ys
  proof (cases "find_year_data (get_fiscal_year_string payment_date) ys")
    case None
    then show ?thesis
      by (simp add: receipt_fiscal_year_section_def Let_def find_year_data_None [symmetric])
  next
    case (Some info)
    then show ?thesis
      using find_year_data_Some [OF Some]
      by (simp add: receipt_fiscal_year_section_def Let_def)
  qed
  show ?thesis
    unfolding Let_def rows_def [symmetric] fiscal_year_start_def [symmetric]
    using found missing general by blast
qed

theorem C7_receipt_lookup_witness:
  "valid_date \<lparr>year = 2026, month = 6, day = 1\<rparr> \<and>
   receipt_fiscal_year_section \<lparr>year = 2026, month = 6, day = 1\<rparr>
     (summary_data (display_customer_summary ''A'' [''A'' \<mapsto> 400] []
        \<lparr>year = 2026, month = 6, day = 1\<rparr>)) =
     Fiscal_Year_Info ''2026-2027'' 100 0 100 Penalty_Pending \<and>
   valid_date \<lparr>year = 2030, month = 1, day = 15\<rparr> \<and>
   receipt_fiscal_year_section \<lparr>year = 2030, month = 1, day = 15\<rparr>
     (summary_data (display_customer_summary ''A'' [''A'' \<mapsto> 400] []
        \<lparr>year = 2026, month = 6, day = 1\<rparr>)) = Fiscal_Year_Not_Found"
proof -
  have v1: "valid_date \<lparr>year = 2026, month = 6, day = 1\<rparr>"
    by (simp add: valid_date_def days_in_month_def)
  have v2: "valid_date \<lparr>year = 2030, month = 1, day = 15\<rparr>"
    by (simp add: valid_date_def days_in_month_def)
  have r: "summary_data (display_customer_summary ''A'' [''A'' \<mapsto> 400] []
        \<lparr>year = 2026, month = 6, day = 1\<rparr>) ! Suc 0 =
      \<lparr>fiscal_label = ''2026-2027'', required = 100, paid = 0, remaining = 100,
       penalty_status_text = Penalty_Pending\<rparr>"
    by (simp add: eval_defs)
  have a: "receipt_fiscal_year_section \<lparr>year = 2026, month = 6, day = 1\<rparr>
     (summary_data (display_customer_summary ''A'' [''A'' \<mapsto> 400] []
        \<lparr>year = 2026, month = 6, day = 1\<rparr>)) =
     Fiscal_Year_Info ''2026-2027'' 100 0 100 Penalty_Pending"
    using C7_receipt_lookup [OF v1, of "''A''" "[''A'' \<mapsto> 400]" "[]" "\<lparr>year = 2026, month = 6, day = 1\<rparr>"]
    by (simp add: Let_def start_contract_fiscal_year_def r)
  have b: "receipt_fiscal_year_section \<lparr>year = 2030, month = 1, day = 15\<rparr>
     (summary_data (display_customer_summary ''A'' [''A'' \<mapsto> 400] []
        \<lparr>year = 2026, month = 6, day = 1\<rparr>)) = Fiscal_Year_Not_Found"
    using C7_receipt_lookup [OF v2, of "''A''" "[''A'' \<mapsto> 400]" "[]" "\<lparr>year = 2026, month = 6, day = 1\<rparr>"]
    by (simp add: Let_def start_contract_fiscal_year_def)
  show ?thesis
    using v1 v2 a b by simp
qed

section \<open>Moving a payment to another period\<close>

lemma period_disjoint:
  "date_ge d \<lparr>year = a, month = 4, day = 5\<rparr> \<Longrightarrow> date_le d \<lparr>year = a + 1, month = 3, day = 5\<rparr> \<Longrightarrow>
   date_ge d \<lparr>year = b, month = 4, day = 5\<rparr> \<Longrightarrow> date_le d \<lparr>year = b + 1, month = 3, day = 5\<rparr> \<Longrightarrow>
   a = b"
  by (auto simp: date_ge_def date_le_def)

lemma in_df_year_period_iff:
  "in_df_year n \<lparr>year = a, month = 4, day = 5\<rparr> \<lparr>year = a + 1, month = 3, day = 5\<rparr> p \<Longrightarrow>
   in_df_year n \<lparr>year = b, month = 4, day = 5\<rparr> \<lparr>year = b + 1, month = 3, day = 5\<rparr> p \<longleftrightarrow> b = a"
  using period_disjoint [of _ a b] by (auto simp: in_df_year_def split: option.splits)

text \<open>The effect on the summary of one row's parsed date moving from period \<open>i\<close> to period \<open>j\<close>.\<close>

lemma move_parsed_date:
  assumes i: "i < 4" and j: "j < 4" and ij: "i \<noteq> j" and k: "k < length df"
    and old: "in_df_year n \<lparr>year = start_contract_fiscal_year + int i, month = 4, day = 5\<rparr>
       \<lparr>year = start_contract_fiscal_year + int i + 1, month = 3, day = 5\<rparr> (df ! k)"
    and ge: "date_ge new_date \<lparr>year = start_contract_fiscal_year + int j, month = 4, day = 5\<rparr>"
    and le: "date_le new_date \<lparr>year = start_contract_fiscal_year + int j + 1, month = 3, day = 5\<rparr>"
    and df': "df' = df[k := (df ! k)\<lparr>payment_date_dt := Some new_date\<rparr>]"
  shows "paid (summary_data (display_customer_summary n ca df' t) ! i) =
           paid (summary_data (display_customer_summary n ca df t) ! i) - amount (df ! k) \<and>
         paid (summary_data (display_customer_summary n ca df' t) ! j) =
           paid (summary_data (display_customer_summary n ca df t) ! j) + amount (df ! k) \<and>
         (\<forall>m<4. m \<noteq> i \<and> m \<noteq> j \<longrightarrow>
            paid (summary_data (display_customer_summary n ca df' t) ! m) =
            paid (summary_data (display_customer_summary n ca df t) ! m)) \<and>
         total_paid_all_time (display_customer_summary n ca df' t) =
           total_paid_all_time (display_customer_summary n ca df t) \<and>
         total_remaining (display_customer_summary n ca df' t) =
           total_remaining (display_customer_summary n ca df t) \<and>
         total_due (display_customer_summary n ca df' t) =
           total_due (display_customer_summary n ca df t)"
proof -
  define q where "q = df ! k"
  define q' where "q' = q\<lparr>payment_date_dt := Some new_date\<rparr>"
  define ps where "ps = take k df"
  define qs where "qs = drop (Suc k) df"
  have df: "df = ps @ q # qs"
    using k by (simp add: ps_def qs_def q_def id_take_nth_drop)
  have df'': "df' = ps @ q' # qs"
    using k by (simp add: df' ps_def qs_def q'_def q_def upd_conv_take_nth_drop)
  have cust: "customer q = n"
    using old by (simp add: q_def in_df_year_def)
  have cust': "customer q' = n" and amt': "amount q' = amount q"
    using cust by (simp_all add: q'_def)
  have in_old: "in_df_year n \<lparr>year = start_contract_fiscal_year + int m, month = 4, day = 5\<rparr>
     \<lparr>year = start_contract_fiscal_year + int m + 1, month = 3, day = 5\<rparr> q \<longleftrightarrow> m = i" for m
    using in_df_year_period_iff [OF old, of "start_contract_fiscal_year + int m"]
    by (simp add: q_def)
  have new: "in_df_year n \<lparr>year = start_contract_fiscal_year + int j, month = 4, day = 5\<rparr>
     \<lparr>year = start_contract_fiscal_year + int j + 1, month = 3, day = 5\<rparr> q'"
    using ge le cust' by (simp add: in_df_year_def q'_def)
  have in_new: "in_df_year n \<lparr>year = start_contract_fiscal_year + int m, month = 4, day = 5\<rparr>
     \<lparr>year = start_contract_fiscal_year + int m + 1, month = 3, day = 5\<rparr> q' \<longleftrightarrow> m = j" for m
    using in_df_year_period_iff [OF new, of "start_contract_fiscal_year + int m"]
    by simp
  define s where "s = display_customer_summary n ca df t"
  define s' where "s' = display_customer_summary n ca df' t"
  define s0 where "s0 = display_customer_summary n ca (ps @ qs) t"
  have paid_s: "paid (summary_data s ! m) = paid (summary_data s0 ! m) + (if m = i then amount q else 0)"
    if "m < 4" for m
    using that by (simp add: s_def s0_def df summary_data_nth pass_paid_insert in_old)
  have paid_s': "paid (summary_data s' ! m) = paid (summary_data s0 ! m) + (if m = j then amount q else 0)"
    if "m < 4" for m
    using that by (simp add: s'_def s0_def df'' summary_data_nth pass_paid_insert in_new amt')
  have tot: "total_paid_all_time s' = total_paid_all_time s"
    by (simp add: s_def s'_def total_paid_eq df df'' cust cust' amt')
  have due: "total_due s' = total_due s"
    by (simp add: s_def s'_def total_due_eq)
  have rem: "total_remaining s' = total_remaining s"
    using tot due by (simp add: s_def s'_def total_remaining_eq)
  have "paid (summary_data s' ! i) = paid (summary_data s ! i) - amount q"
    using paid_s [OF i] paid_s' [OF i] ij by simp
  moreover have "paid (summary_data s' ! j) = paid (summary_data s ! j) + amount q"
    using paid_s [OF j] paid_s' [OF j] ij by simp
  moreover have "\<forall>m<4. m \<noteq> i \<and> m \<noteq> j \<longrightarrow> paid (summary_data s' ! m) = paid (summary_data s ! m)"
    using paid_s paid_s' by simp
  ultimately show ?thesis
    unfolding s_def [symmetric] s'_def [symmetric] q_def [symmetric]
    using tot rem due by simp
qed

lemma load_data_length: "length (load_data P stored) = length stored"
  by (simp add: load_data_def)

lemma load_data_nth:
  "m < length stored \<Longrightarrow>
   load_data P stored ! m =
     \<lparr>customer = stored_customer (stored ! m),
      payment_date_dt = P (map stored_date stored) m,
      amount = stored_amount (stored ! m),
      payment_note = stored_note (stored ! m)\<rparr>"
  by (simp add: load_data_def)

text \<open>
  Claim C8, as amended. The edit page changes only the date of one payment of the customer,
  from a date inside the period of row \<open>i\<close> to a date inside the period of another row \<open>j\<close>.
  When the next load parses the edited cell back to the new date and parses the other
  cells as before, the amount leaves the paid amount of row \<open>i\<close> and enters that of row
  \<open>j\<close>, the paid amounts of the other rows stay as they were, and so do the total paid
  and the total remaining.
\<close>

theorem C8_edit_date:
  "i < 4 \<Longrightarrow> j < 4 \<Longrightarrow> i \<noteq> j \<Longrightarrow> k < length stored \<Longrightarrow>
   in_df_year customer_name \<lparr>year = start_contract_fiscal_year + int i, month = 4, day = 5\<rparr>
     \<lparr>year = start_contract_fiscal_year + int i + 1, month = 3, day = 5\<rparr>
     (load_data to_datetime_coerce stored ! k) \<Longrightarrow>
   date_ge new_date \<lparr>year = start_contract_fiscal_year + int j, month = 4, day = 5\<rparr> \<Longrightarrow>
   date_le new_date \<lparr>year = start_contract_fiscal_year + int j + 1, month = 3, day = 5\<rparr> \<Longrightarrow>
   to_datetime_coerce ((map stored_date stored)[k := strftime_Ymd new_date]) k = Some new_date \<Longrightarrow>
   (\<forall>m<length stored. m \<noteq> k \<longrightarrow>
      to_datetime_coerce ((map stored_date stored)[k := strftime_Ymd new_date]) m =
      to_datetime_coerce (map stored_date stored) m) \<Longrightarrow>
   (case edit_payment stored k new_date (stored_amount (stored ! k)) (stored_note (stored ! k)) of
      None \<Rightarrow> False
    | Some stored' \<Rightarrow>
        (let s = display_customer_summary customer_name customer_amounts
                   (load_data to_datetime_coerce stored) today;
             s' = display_customer_summary customer_name customer_amounts
                   (load_data to_datetime_coerce stored') today
         in paid (summary_data s' ! i) = paid (summary_data s ! i) - stored_amount (stored ! k) \<and>
            paid (summary_data s' ! j) = paid (summary_data s ! j) + stored_amount (stored ! k) \<and>
            (\<forall>m<4. m \<noteq> i \<and> m \<noteq> j \<longrightarrow> paid (summary_data s' ! m) = paid (summary_data s ! m)) \<and>
            total_paid_all_time s' = total_paid_all_time s \<and>
            total_remaining s' = total_remaining s \<and>
            total_due s' = total_due s))"
proof -
  assume i: "i < 4" and j: "j < 4" and ij: "i \<noteq> j" and k: "k < length stored"
    and old: "in_df_year customer_name \<lparr>year = start_contract_fiscal_year + int i, month = 4, day = 5\<rparr>
     \<lparr>year = start_contract_fiscal_year + int i + 1, month = 3, day = 5\<rparr>
     (load_data to_datetime_coerce stored ! k)"
    and ge: "date_ge new_date \<lparr>year = start_contract_fiscal_year + int j, month = 4, day = 5\<rparr>"
    and le: "date_le new_date \<lparr>year = start_contract_fiscal_year + int j + 1, month = 3, day = 5\<rparr>"
    and parsed: "to_datetime_coerce ((map stored_date stored)[k := strftime_Ymd new_date]) k = Some new_date"
    and others: "\<forall>m<length stored. m \<noteq> k \<longrightarrow>
      to_datetime_coerce ((map stored_date stored)[k := strftime_Ymd new_date]) m =
      to_datetime_coerce (map stored_date stored) m"
  define stored' where "stored' = stored[k := (stored ! k)\<lparr>stored_date := strftime_Ymd new_date,
      stored_amount := stored_amount (stored ! k), stored_note := stored_note (stored ! k)\<rparr>]"
  define df where "df = load_data to_datetime_coerce stored"
  define df' where "df' = load_data to_datetime_coerce stored'"
  have edit: "edit_payment stored k new_date (stored_amount (stored ! k)) (stored_note (stored ! k)) =
      Some stored'"
    using k by (simp add: edit_payment_def stored'_def)
  have col: "map stored_date stored' = (map stored_date stored)[k := strftime_Ymd new_date]"
    by (simp add: stored'_def map_update)
  have kdf: "k < length df"
    using k by (simp add: df_def load_data_length)
  have len': "length stored' = length stored"
    by (simp add: stored'_def)
  have nth': "df' ! m =
      \<lparr>customer = stored_customer (stored' ! m),
       payment_date_dt = to_datetime_coerce ((map stored_date stored)[k := strftime_Ymd new_date]) m,
       amount = stored_amount (stored' ! m),
       payment_note = stored_note (stored' ! m)\<rparr>" if "m < length stored" for m
    using that load_data_nth [of m stored' to_datetime_coerce] by (simp add: df'_def len' col)
  have nth: "df ! m =
      \<lparr>customer = stored_customer (stored ! m),
       payment_date_dt = to_datetime_coerce (map stored_date stored) m,
       amount = stored_amount (stored ! m),
       payment_note = stored_note (stored ! m)\<rparr>" if "m < length stored" for m
    using that by (simp add: df_def load_data_nth)
  have at_k: "stored_customer (stored' ! k) = stored_customer (stored ! k)"
    "stored_amount (stored' ! k) = stored_amount (stored ! k)"
    "stored_note (stored' ! k) = stored_note (stored ! k)"
    using k by (simp_all add: stored'_def)
  have off_k: "stored' ! m = stored ! m" if "m \<noteq> k" for m
    using that by (simp add: stored'_def)
  have "df' = df[k := (df ! k)\<lparr>payment_date_dt := Some new_date\<rparr>]"
  proof (rule nth_equalityI)
    show "length df' = length (df[k := (df ! k)\<lparr>payment_date_dt := Some new_date\<rparr>])"
      by (simp add: df_def df'_def load_data_length len')
  next
    fix m
    assume "m < length df'"
    then have m: "m < length stored"
      by (simp add: df'_def load_data_length len')
    show "df' ! m = df[k := (df ! k)\<lparr>payment_date_dt := Some new_date\<rparr>] ! m"
    proof (cases "m = k")
      case True
      with k kdf parsed show ?thesis
        by (simp add: nth' nth at_k)
    next
      case False
      with m others have "to_datetime_coerce ((map stored_date stored)[k := strftime_Ymd new_date]) m =
          to_datetime_coerce (map stored_date stored) m"
        by simp
      with False m show ?thesis
        by (simp add: nth' nth off_k)
    qed
  qed
  note move = move_parsed_date [OF i j ij kdf old [folded df_def] ge le this,
      of customer_amounts today]
  have amt: "amount (df ! k) = stored_amount (stored ! k)"
    using k by (simp add: df_def load_data_nth)
  show ?thesis
    unfolding edit option.case Let_def df_def [symmetric] df'_def [symmetric]
    using move [unfolded amt] .
qed

text \<open>The definitions that evaluate the loading of a concrete file.\<close>

lemmas load_defs = load_data_def to_datetime_first_format_def guess_separator_def parse_ymd_def
  digits_value_def digit_value_def valid_date_def days_in_month_def is_leap_def

theorem C8_edit_date_witness:
  "(0::nat) < 4 \<and> (1::nat) < 4 \<and> (0::nat) \<noteq> 1 \<and>
   edit_payment
     [\<lparr>stored_customer = ''A'', stored_date = ''2025-06-01'', stored_amount = 100, stored_note = []\<rparr>]
     0 \<lparr>year = 2026, month = 6, day = 1\<rparr> 100 [] =
   Some [\<lparr>stored_customer = ''A'', stored_date = ''2026-06-01'', stored_amount = 100, stored_note = []\<rparr>] \<and>
   to_datetime_first_format [''2026-06-01''] 0 = Some \<lparr>year = 2026, month = 6, day = 1\<rparr> \<and>
   paid (summary_data (display_customer_summary ''A'' [''A'' \<mapsto> 400]
     (load_data to_datetime_first_format
        [\<lparr>stored_customer = ''A'', stored_date = ''2026-06-01'', stored_amount = 100, stored_note = []\<rparr>])
     \<lparr>year = 2026, month = 7, day = 1\<rparr>) ! 0) =
   paid (summary_data (display_customer_summary ''A'' [''A'' \<mapsto> 400]
     (load_data to_datetime_first_format
        [\<lparr>stored_customer = ''A'', stored_date = ''2025-06-01'', stored_amount = 100, stored_note = []\<rparr>])
     \<lparr>year = 2026, month = 7, day = 1\<rparr>) ! 0) - 100 \<and>
   paid (summary_data (display_customer_summary ''A'' [''A'' \<mapsto> 400]
     (load_data to_datetime_first_format
        [\<lparr>stored_customer = ''A'', stored_date = ''2026-06-01'', stored_amount = 100, stored_note = []\<rparr>])
     \<lparr>year = 2026, month = 7, day = 1\<rparr>) ! 1) =
   paid (summary_data (display_customer_summary ''A'' [''A'' \<mapsto> 400]
     (load_data to_datetime_first_format
        [\<lparr>stored_customer = ''A'', stored_date = ''2025-06-01'', stored_amount = 100, stored_note = []\<rparr>])
     \<lparr>year = 2026, month = 7, day = 1\<rparr>) ! 1) + 100 \<and>
   total_paid_all_time (display_customer_summary ''A'' [''A'' \<mapsto> 400]
     (load_data to_datetime_first_format
        [\<lparr>stored_customer = ''A'', stored_date = ''2026-06-01'', stored_amount = 100, stored_note = []\<rparr>])
     \<lparr>year = 2026, month = 7, day = 1\<rparr>) =
   total_paid_all_time (display_customer_summary ''A'' [''A'' \<mapsto> 400]
     (load_data to_datetime_first_format
        [\<lparr>stored_customer = ''A'', stored_date = ''2025-06-01'', stored_amount = 100, stored_note = []\<rparr>])
     \<lparr>year = 2026, month = 7, day = 1\<rparr>)"
proof -
  define stored where "stored =
    [\<lparr>stored_customer = ''A'', stored_date = ''2025-06-01'', stored_amount = 100, stored_note = []\<rparr>]"
  have iso: "strftime_Ymd \<lparr>year = 2026, month = 6, day = 1\<rparr> = ''2026-06-01''"
    by (simp add: strftime_Ymd_def zero_pad_def str_int_def str_nat.simps digit_char_def)
  have e: "edit_payment stored 0 \<lparr>year = 2026, month = 6, day = 1\<rparr>
      (stored_amount (stored ! 0)) (stored_note (stored ! 0)) =
   Some [\<lparr>stored_customer = ''A'', stored_date = ''2026-06-01'', stored_amount = 100, stored_note = []\<rparr>]"
    by (simp add: stored_def edit_payment_def iso)
  have k: "0 < length stored"
    by (simp add: stored_def)
  have old: "in_df_year ''A'' \<lparr>year = start_contract_fiscal_year + int 0, month = 4, day = 5\<rparr>
     \<lparr>year = start_contract_fiscal_year + int 0 + 1, month = 3, day = 5\<rparr>
     (load_data to_datetime_first_format stored ! 0)"
    by (simp add: stored_def load_defs in_df_year_def date_ge_def date_le_def
        start_contract_fiscal_year_def Let_def)
  have ge: "date_ge \<lparr>year = 2026, month = 6, day = 1\<rparr>
      \<lparr>year = start_contract_fiscal_year + int 1, month = 4, day = 5\<rparr>"
    by (simp add: date_ge_def date_le_def start_contract_fiscal_year_def)
  have le: "date_le \<lparr>year = 2026, month = 6, day = 1\<rparr>
      \<lparr>year = start_contract_fiscal_year + int 1 + 1, month = 3, day = 5\<rparr>"
    by (simp add: date_le_def start_contract_fiscal_year_def)
  have parsed: "to_datetime_first_format
      ((map stored_date stored)[0 := strftime_Ymd \<lparr>year = 2026, month = 6, day = 1\<rparr>]) 0 =
      Some \<lparr>year = 2026, month = 6, day = 1\<rparr>"
    by (simp add: stored_def iso load_defs Let_def)
  have others: "\<forall>m<length stored. m \<noteq> 0 \<longrightarrow>
      to_datetime_first_format
        ((map stored_date stored)[0 := strftime_Ymd \<lparr>year = 2026, month = 6, day = 1\<rparr>]) m =
      to_datetime_first_format (map stored_date stored) m"
    by (simp add: stored_def)
  have p: "to_datetime_first_format [''2026-06-01''] 0 = Some \<lparr>year = 2026, month = 6, day = 1\<rparr>"
    by (simp add: load_defs Let_def)
  note c8 = C8_edit_date [where i = 0 and j = 1 and k = 0 and stored = stored
      and customer_name = "''A''" and to_datetime_coerce = to_datetime_first_format
      and new_date = "\<lparr>year = 2026, month = 6, day = 1\<rparr>"
      and customer_amounts = "[''A'' \<mapsto> 400]" and today = "\<lparr>year = 2026, month = 7, day = 1\<rparr>",
      OF _ _ _ k old ge le parsed others, unfolded e option.case Let_def]
  have amt: "stored_amount (stored ! 0) = 100"
    by (simp add: stored_def)
  have c8': "(0::nat) < 4 \<Longrightarrow> (1::nat) < 4 \<Longrightarrow> (0::nat) \<noteq> 1 \<Longrightarrow> ?thesis"
    using c8 e p unfolding amt stored_def by simp
  show ?thesis
    by (rule c8') simp_all
qed

text \<open>
  The claim as it was stated fails on a file whose date column starts with a cell in another
  format. The second payment, of 50, is dated inside fiscal year 2025; the edit page moves
  it to June 1, 2026, inside fiscal year 2026. The edited cell is written as
  \<^verbatim>\<open>2026-06-01\<close>, the next load takes the format from the first cell and parses the edited
  cell to \<^verbatim>\<open>NaT\<close>, and the amount leaves the first row without entering the second.
\<close>

theorem C8_counterexample:
  "in_df_year ''A'' \<lparr>year = 2025, month = 4, day = 5\<rparr> \<lparr>year = 2026, month = 3, day = 5\<rparr>
     (load_data to_datetime_first_format
        [\<lparr>stored_customer = ''A'', stored_date = ''2025/06/01'', stored_amount = 100, stored_note = []\<rparr>,
         \<lparr>stored_customer = ''A'', stored_date = ''2025/08/01'', stored_amount = 50, stored_note = []\<rparr>] ! 1) \<and>
   date_ge \<lparr>year = 2026, month = 6, day = 1\<rparr> \<lparr>year = 2026, month = 4, day = 5\<rparr> \<and>
   date_le \<lparr>year = 2026, month = 6, day = 1\<rparr> \<lparr>year = 2027, month = 3, day = 5\<rparr> \<and>
   edit_payment
     [\<lparr>stored_customer = ''A'', stored_date = ''2025/06/01'', stored_amount = 100, stored_note = []\<rparr>,
      \<lparr>stored_customer = ''A'', stored_date = ''2025/08/01'', stored_amount = 50, stored_note = []\<rparr>]
     1 \<lparr>year = 2026, month = 6, day = 1\<rparr> 50 [] =
   Some
     [\<lparr>stored_customer = ''A'', stored_date = ''2025/06/01'', stored_amount = 100, stored_note = []\<rparr>,
      \<lparr>stored_customer = ''A'', stored_date = ''2026-06-01'', stored_amount = 50, stored_note = []\<rparr>] \<and>
   map payment_date_dt (load_data to_datetime_first_format
     [\<lparr>stored_customer = ''A'', stored_date = ''2025/06/01'', stored_amount = 100, stored_note = []\<rparr>,
      \<lparr>stored_customer = ''A'', stored_date = ''2026-06-01'', stored_amount = 50, stored_note = []\<rparr>]) =
   [Some \<lparr>year = 2025, month = 6, day = 1\<rparr>, None] \<and>
   map paid (summary_data (display_customer_summary ''A'' [''A'' \<mapsto> 400]
     (load_data to_datetime_first_format
        [\<lparr>stored_customer = ''A'', stored_date = ''2025/06/01'', stored_amount = 100, stored_note = []\<rparr>,
         \<lparr>stored_customer = ''A'', stored_date = ''2025/08/01'', stored_amount = 50, stored_note = []\<rparr>])
     \<lparr>year = 2026, month = 7, day = 1\<rparr>)) = [150, 0, 0, 0] \<and>
   map paid (summary_data (display_customer_summary ''A'' [''A'' \<mapsto> 400]
     (load_data to_datetime_first_format
        [\<lparr>stored_customer = ''A'', stored_date = ''2025/06/01'', stored_amount = 100, stored_note = []\<rparr>,
         \<lparr>stored_customer = ''A'', stored_date = ''2026-06-01'', stored_amount = 50, stored_note = []\<rparr>])
     \<lparr>year = 2026, month = 7, day = 1\<rparr>)) = [100, 0, 0, 0]"
proof -
  have iso: "strftime_Ymd \<lparr>year = 2026, month = 6, day = 1\<rparr> = ''2026-06-01''"
    by (simp add: strftime_Ymd_def zero_pad_def str_int_def str_nat.simps digit_char_def)
  have before: "load_data to_datetime_first_format
        [\<lparr>stored_customer = ''A'', stored_date = ''2025/06/01'', stored_amount = 100, stored_note = []\<rparr>,
         \<lparr>stored_customer = ''A'', stored_date = ''2025/08/01'', stored_amount = 50, stored_note = []\<rparr>] =
      [\<lparr>customer = ''A'', payment_date_dt = Some \<lparr>year = 2025, month = 6, day = 1\<rparr>,
        amount = 100, payment_note = []\<rparr>,
       \<lparr>customer = ''A'', payment_date_dt = Some \<lparr>year = 2025, month = 8, day = 1\<rparr>,
        amount = 50, payment_note = []\<rparr>]"
    by (simp add: load_defs upt_rec Let_def)
  have after: "load_data to_datetime_first_format
        [\<lparr>stored_customer = ''A'', stored_date = ''2025/06/01'', stored_amount = 100, stored_note = []\<rparr>,
         \<lparr>stored_customer = ''A'', stored_date = ''2026-06-01'', stored_amount = 50, stored_note = []\<rparr>] =
      [\<lparr>customer = ''A'', payment_date_dt = Some \<lparr>year = 2025, month = 6, day = 1\<rparr>,
        amount = 100, payment_note = []\<rparr>,
       \<lparr>customer = ''A'', payment_date_dt = None, amount = 50, payment_note = []\<rparr>]"
    by (simp add: load_defs upt_rec Let_def)
  show ?thesis
    unfolding before after
    by (simp add: eval_defs edit_payment_def iso)
qed

section \<open>The summary as a function of its inputs\<close>














end
